theory Spec2Isabelle
  imports Main
begin


section \<open>Python string primitives used by gnupg.py\<close>

text \<open>
  Strings are lists of 8-bit characters. The whitespace class of this subsection is
  the one of \<^verbatim>\<open>str.split()\<close>, \<^verbatim>\<open>str.strip()\<close> and \<^verbatim>\<open>str.rstrip()\<close> on byte strings
  (the \<^verbatim>\<open>str\<close> that the sanitiser tests for with \<^verbatim>\<open>isinstance\<close>): space, tab, line
  feed, vertical tab, form feed and carriage return.
\<close>

definition is_space :: "char \<Rightarrow> bool" where
  "is_space c = (c = CHR '' '' \<or> c = CHR 0x09 \<or> c = CHR 0x0A \<or> c = CHR 0x0B
                 \<or> c = CHR 0x0C \<or> c = CHR 0x0D)"

text \<open>\<^verbatim>\<open>s.split()\<close>: the maximal runs of non-whitespace characters, in order.\<close>

fun split_aux :: "string \<Rightarrow> string \<Rightarrow> string list" where
  "split_aux cur [] = (if cur = [] then [] else [cur])"
| "split_aux cur (c # cs) =
     (if is_space c then (if cur = [] then split_aux [] cs else cur # split_aux [] cs)
      else split_aux (cur @ [c]) cs)"

definition py_split :: "string \<Rightarrow> string list" where
  "py_split s = split_aux [] s"

text \<open>
  \<^verbatim>\<open>s.split(None, 1)\<close>: leading whitespace is skipped, the first token ends at the
  first whitespace run, and what follows that run (if anything) is the second
  element, trailing whitespace included.
\<close>

definition py_split1 :: "string \<Rightarrow> string list" where
  "py_split1 s =
     (let s1 = dropWhile is_space s in
      if s1 = [] then []
      else (let k = takeWhile (\<lambda>c. \<not> is_space c) s1;
                r = dropWhile is_space (dropWhile (\<lambda>c. \<not> is_space c) s1)
            in if r = [] then [k] else [k, r]))"

text \<open>\<^verbatim>\<open>s.split(sep)\<close> for a one-character separator: empty pieces are kept.\<close>

fun split_on :: "char \<Rightarrow> string \<Rightarrow> string list" where
  "split_on sep [] = [[]]"
| "split_on sep (c # cs) =
     (if c = sep then [] # split_on sep cs
      else (case split_on sep cs of
              [] \<Rightarrow> [[c]]
            | p # ps \<Rightarrow> (c # p) # ps))"

definition py_rstrip :: "string \<Rightarrow> string" where
  "py_rstrip s = rev (dropWhile is_space (rev s))"

definition py_strip :: "string \<Rightarrow> string" where
  "py_strip s = dropWhile is_space (py_rstrip s)"

text \<open>\<^verbatim>\<open>s.find(c)\<close> for a one-character needle: the first index, or -1.\<close>

fun find_char :: "char \<Rightarrow> string \<Rightarrow> int" where
  "find_char c [] = - 1"
| "find_char c (x # xs) =
     (if x = c then 0
      else (let r = find_char c xs in if r < 0 then - 1 else r + 1))"

text \<open>\<^verbatim>\<open>s.startswith(p)\<close>.\<close>

definition startswith :: "string \<Rightarrow> string \<Rightarrow> bool" where
  "startswith s p = (take (length p) s = p)"

text \<open>\<^verbatim>\<open>sep.join(xs)\<close>.\<close>

fun join :: "string \<Rightarrow> string list \<Rightarrow> string" where
  "join sep [] = []"
| "join sep [x] = x"
| "join sep (x # y # ys) = x @ sep @ join sep (y # ys)"

text \<open>\<^verbatim>\<open>s.replace(c, new)\<close> for a one-character pattern.\<close>

definition replace_char :: "char \<Rightarrow> string \<Rightarrow> string \<Rightarrow> string" where
  "replace_char c new s = concat (map (\<lambda>x. if x = c then new else [x]) s)"

definition is_digit :: "char \<Rightarrow> bool" where
  "is_digit c = (48 \<le> (of_char c :: nat) \<and> (of_char c :: nat) \<le> 57)"

definition is_upper :: "char \<Rightarrow> bool" where
  "is_upper c = (65 \<le> (of_char c :: nat) \<and> (of_char c :: nat) \<le> 90)"

definition is_lower :: "char \<Rightarrow> bool" where
  "is_lower c = (97 \<le> (of_char c :: nat) \<and> (of_char c :: nat) \<le> 122)"

text \<open>\<^verbatim>\<open>s.lower()\<close> on ASCII text.\<close>

definition lower_char :: "char \<Rightarrow> char" where
  "lower_char c =
     (case map_of (zip ''ABCDEFGHIJKLMNOPQRSTUVWXYZ'' ''abcdefghijklmnopqrstuvwxyz'') c of
        None \<Rightarrow> c
      | Some l \<Rightarrow> l)"

definition py_lower :: "string \<Rightarrow> string" where
  "py_lower s = map lower_char s"

text \<open>
  \<^verbatim>\<open>int(s)\<close>: surrounding whitespace is ignored, then an optional sign and at least
  one decimal digit; anything else is a ValueError (here \<open>None\<close>).
\<close>

fun digits_value :: "nat \<Rightarrow> string \<Rightarrow> nat option" where
  "digits_value acc [] = Some acc"
| "digits_value acc (c # cs) =
     (if is_digit c then digits_value (10 * acc + ((of_char c :: nat) - 48)) cs else None)"

definition parse_nat :: "string \<Rightarrow> nat option" where
  "parse_nat s = (if s = [] then None else digits_value 0 s)"

definition py_int :: "string \<Rightarrow> int option" where
  "py_int s =
     (case py_strip s of
        [] \<Rightarrow> None
      | c # cs \<Rightarrow>
          if c = CHR ''-'' then map_option (\<lambda>n. - int n) (parse_nat cs)
          else if c = CHR ''+'' then map_option int (parse_nat cs)
          else map_option int (parse_nat (c # cs)))"

subsection \<open>Decoded text\<close>

text \<open>
  The diagnostic channel is read through \<^verbatim>\<open>codecs.getreader\<close>, so the lines that
  \<^verbatim>\<open>_read_response\<close> sees, and the keyword and value it hands to a result handler, are
  decoded text and not byte strings. The characters of the model are the code points
  below 256. On decoded text \<^verbatim>\<open>split()\<close>, \<^verbatim>\<open>rstrip()\<close>, \<^verbatim>\<open>strip()\<close> and \<^verbatim>\<open>int()\<close> also
  treat the separators 0x1C to 0x1F, the next-line character 0x85 and the no-break
  space 0xA0 as whitespace. The functions below are the ones above with that class.
\<close>

definition is_uspace :: "char \<Rightarrow> bool" where
  "is_uspace c = (is_space c \<or> c = CHR 0x1C \<or> c = CHR 0x1D \<or> c = CHR 0x1E
                  \<or> c = CHR 0x1F \<or> c = CHR 0x85 \<or> c = CHR 0xA0)"

fun usplit_aux :: "string \<Rightarrow> string \<Rightarrow> string list" where
  "usplit_aux cur [] = (if cur = [] then [] else [cur])"
| "usplit_aux cur (c # cs) =
     (if is_uspace c then (if cur = [] then usplit_aux [] cs else cur # usplit_aux [] cs)
      else usplit_aux (cur @ [c]) cs)"

definition u_split :: "string \<Rightarrow> string list" where
  "u_split s = usplit_aux [] s"

definition u_split1 :: "string \<Rightarrow> string list" where
  "u_split1 s =
     (let s1 = dropWhile is_uspace s in
      if s1 = [] then []
      else (let k = takeWhile (\<lambda>c. \<not> is_uspace c) s1;
                r = dropWhile is_uspace (dropWhile (\<lambda>c. \<not> is_uspace c) s1)
            in if r = [] then [k] else [k, r]))"

definition u_rstrip :: "string \<Rightarrow> string" where
  "u_rstrip s = rev (dropWhile is_uspace (rev s))"

definition u_strip :: "string \<Rightarrow> string" where
  "u_strip s = dropWhile is_uspace (u_rstrip s)"

definition u_int :: "string \<Rightarrow> int option" where
  "u_int s =
     (case u_strip s of
        [] \<Rightarrow> None
      | c # cs \<Rightarrow>
          if c = CHR ''-'' then map_option (\<lambda>n. - int n) (parse_nat cs)
          else if c = CHR ''+'' then map_option int (parse_nat cs)
          else map_option int (parse_nat (c # cs)))"

section \<open>Exceptions\<close>

text \<open>
  The exceptions that the modelled code raises or catches. \<open>UnknownStatusMessage k\<close>
  is \<^verbatim>\<open>ValueError("Unknown status message: %r" % k)\<close>; \<open>ValueError\<close> stands for the
  other ValueErrors (tuple unpacking of the wrong length, \<^verbatim>\<open>int()\<close> of a
  non-number).
\<close>

datatype error =
    ProtectedOption string
  | UsageError
  | AssertionError
  | TypeError
  | ValueError
  | IndexError
  | KeyError
  | IOError
  | UnicodeError
  | UnknownStatusMessage string

section \<open>The argument sanitiser\<close>

subsection \<open>\<^verbatim>\<open>_fix_unsafe\<close>\<close>

text \<open>
  The pattern is \<^verbatim>\<open>[^\w@%+=:,./-]\<close> compiled with flag 256 (ASCII matching), so
  \<^verbatim>\<open>\w\<close> is a letter, a digit or the underscore.
\<close>

definition word_char :: "char \<Rightarrow> bool" where
  "word_char c = (is_lower c \<or> is_upper c \<or> is_digit c \<or> c = CHR ''_'')"

definition unsafe_char :: "char \<Rightarrow> bool" where
  "unsafe_char c = (\<not> (word_char c \<or> c \<in> set ''@%+=:,./-''))"

text \<open>\<^verbatim>\<open>_unsafe.findall(input)\<close>: every unsafe character of the input, in order.\<close>

definition unsafe_findall :: "string \<Rightarrow> string list" where
  "unsafe_findall s = map (\<lambda>c. [c]) (filter unsafe_char s)"

definition fix_unsafe :: "string \<Rightarrow> string" where
  "fix_unsafe input =
     (if length (unsafe_findall input) = 0 then input
      else [CHR 0x27] @ replace_char (CHR 0x27) ([CHR 0x27, CHR 0x22, CHR 0x27, CHR 0x22, CHR 0x27]) input
           @ [CHR 0x27])"

text \<open>
  The character set as the specification writes it:
  \<^verbatim>\<open>[A-Za-z0-9@%+=:,./_-]\<close>.
\<close>

definition spec_safe_set :: "char set" where
  "spec_safe_set =
     set ''ABCDEFGHIJKLMNOPQRSTUVWXYZ'' \<union> set ''abcdefghijklmnopqrstuvwxyz''
     \<union> set ''0123456789'' \<union> set ''@%+=:,./_-''"

subsection \<open>\<^verbatim>\<open>_hyphenate\<close>\<close>

definition hyphenate :: "string \<Rightarrow> bool \<Rightarrow> string" where
  "hyphenate input add_prefix =
     (let ret = (if add_prefix then ''--'' else []) in
      ret @ replace_char (CHR ''_'') ''-'' input)"

subsection \<open>\<^verbatim>\<open>_is_allowed\<close>\<close>

text \<open>The table \<^verbatim>\<open>_all\<close> of every option known to gpg, in source order.\<close>

definition all_opts :: "string list" where
  "all_opts = [
    ''--allow-freeform-uid'', ''--multifile'', ''--allow-multiple-messages'', ''--no'',
    ''--allow-multisig-verification'', ''--no-allow-freeform-uid'',
    ''--allow-non-selfsigned-uid'', ''--no-allow-multiple-messages'',
    ''--allow-secret-key-import'', ''--no-allow-non-selfsigned-uid'', ''--always-trust'',
    ''--no-armor'', ''--armor'', ''--no-armour'', ''--armour'', ''--no-ask-cert-expire'',
    ''--ask-cert-expire'', ''--no-ask-cert-level'', ''--ask-cert-level'',
    ''--no-ask-sig-expire'', ''--ask-sig-expire'', ''--no-auto-check-trustdb'',
    ''--attribute-fd'', ''--no-auto-key-locate'', ''--attribute-file'',
    ''--no-auto-key-retrieve'', ''--auto-check-trustdb'', ''--no-batch'',
    ''--auto-key-locate'', ''--no-comments'', ''--auto-key-retrieve'',
    ''--no-default-keyring'', ''--batch'', ''--no-default-recipient'',
    ''--bzip2-compress-level'', ''--no-disable-mdc'', ''--bzip2-decompress-lowmem'',
    ''--no-emit-version'', ''--card-edit'', ''--no-encrypt-to'', ''--card-status'',
    ''--no-escape-from-lines'', ''--cert-digest-algo'', ''--no-expensive-trust-checks'',
    ''--cert-notation'', ''--no-expert'', ''--cert-policy-url'', ''--no-force-mdc'',
    ''--change-pin'', ''--no-force-v3-sigs'', ''--charset'', ''--no-force-v4-certs'',
    ''--check-sig'', ''--no-for-your-eyes-only'', ''--check-sigs'', ''--no-greeting'',
    ''--check-trustdb'', ''--no-groups'', ''--cipher-algo'', ''--no-literal'',
    ''--clearsign'', ''--no-mangle-dos-filenames'', ''--command-fd'', ''--no-mdc-warning'',
    ''--command-file'', ''--no-options'', ''--comment'', ''--no-permission-warning'',
    ''--completes-needed'', ''--no-pgp2'', ''--compress-algo'', ''--no-pgp6'',
    ''--compression-algo'', ''--no-pgp7'', ''--compress-keys'', ''--no-pgp8'',
    ''--compress-level'', ''--no-random-seed-file'', ''--compress-sigs'',
    ''--no-require-backsigs'', ''--ctapi-driver'', ''--no-require-cross-certification'',
    ''--dearmor'', ''--no-require-secmem'', ''--dearmour'', ''--no-rfc2440-text'',
    ''--debug'', ''--no-secmem-warning'', ''--debug-all'', ''--no-show-notation'',
    ''--debug-ccid-driver'', ''--no-show-photos'', ''--debug-level'',
    ''--no-show-policy-url'', ''--decrypt'', ''--no-sig-cache'', ''--decrypt-files'',
    ''--no-sig-create-check'', ''--default-cert-check-level'', ''--no-sk-comments'',
    ''--default-cert-expire'', ''--no-strict'', ''--default-cert-level'',
    ''--notation-data'', ''--default-comment'', ''--not-dash-escaped'', ''--default-key'',
    ''--no-textmode'', ''--default-keyserver-url'', ''--no-throw-keyid'',
    ''--default-preference-list'', ''--no-throw-keyids'', ''--default-recipient'',
    ''--no-tty'', ''--default-recipient-self'', ''--no-use-agent'',
    ''--default-sig-expire'', ''--no-use-embedded-filename'', ''--delete-keys'',
    ''--no-utf8-strings'', ''--delete-secret-and-public-keys'', ''--no-verbose'',
    ''--delete-secret-keys'', ''--no-version'', ''--desig-revoke'', ''--openpgp'',
    ''--detach-sign'', ''--options'', ''--digest-algo'', ''--output'', ''--disable-ccid'',
    ''--override-session-key'', ''--disable-cipher-algo'', ''--passphrase'',
    ''--disable-dsa2'', ''--passphrase-fd'', ''--disable-mdc'', ''--passphrase-file'',
    ''--disable-pubkey-algo'', ''--passphrase-repeat'', ''--display'', ''--pcsc-driver'',
    ''--display-charset'', ''--personal-cipher-preferences'', ''--dry-run'',
    ''--personal-cipher-prefs'', ''--dump-options'', ''--personal-compress-preferences'',
    ''--edit-key'', ''--personal-compress-prefs'', ''--emit-version'',
    ''--personal-digest-preferences'', ''--enable-dsa2'', ''--personal-digest-prefs'',
    ''--enable-progress-filter'', ''--pgp2'', ''--enable-special-filenames'', ''--pgp6'',
    ''--enarmor'', ''--pgp7'', ''--enarmour'', ''--pgp8'', ''--encrypt'',
    ''--photo-viewer'', ''--encrypt-files'', ''--pipemode'', ''--encrypt-to'',
    ''--preserve-permissions'', ''--escape-from-lines'', ''--primary-keyring'',
    ''--exec-path'', ''--print-md'', ''--exit-on-status-write-error'', ''--print-mds'',
    ''--expert'', ''--quick-random'', ''--export'', ''--quiet'', ''--export-options'',
    ''--reader-port'', ''--export-ownertrust'', ''--rebuild-keydb-caches'',
    ''--export-secret-keys'', ''--recipient'', ''--export-secret-subkeys'',
    ''--recv-keys'', ''--fast-import'', ''--refresh-keys'', ''--fast-list-mode'',
    ''--remote-user'', ''--fetch-keys'', ''--require-backsigs'', ''--fingerprint'',
    ''--require-cross-certification'', ''--fixed-list-mode'', ''--require-secmem'',
    ''--fix-trustdb'', ''--rfc1991'', ''--force-mdc'', ''--rfc2440'',
    ''--force-ownertrust'', ''--rfc2440-text'', ''--force-v3-sigs'', ''--rfc4880'',
    ''--force-v4-certs'', ''--run-as-shm-coprocess'', ''--for-your-eyes-only'',
    ''--s2k-cipher-algo'', ''--gen-key'', ''--s2k-count'', ''--gen-prime'',
    ''--s2k-digest-algo'', ''--gen-random'', ''--s2k-mode'', ''--gen-revoke'',
    ''--search-keys'', ''--gnupg'', ''--secret-keyring'', ''--gpg-agent-info'',
    ''--send-keys'', ''--gpgconf-list'', ''--set-filename'', ''--gpgconf-test'',
    ''--set-filesize'', ''--group'', ''--set-notation'', ''--help'', ''--set-policy-url'',
    ''--hidden-encrypt-to'', ''--show-keyring'', ''--hidden-recipient'',
    ''--show-notation'', ''--homedir'', ''--show-photos'', ''--honor-http-proxy'',
    ''--show-policy-url'', ''--ignore-crc-error'', ''--show-session-key'',
    ''--ignore-mdc-error'', ''--sig-keyserver-url'', ''--ignore-time-conflict'',
    ''--sign'', ''--ignore-valid-from'', ''--sign-key'', ''--import'', ''--sig-notation'',
    ''--import-options'', ''--sign-with'', ''--import-ownertrust'', ''--sig-policy-url'',
    ''--interactive'', ''--simple-sk-checksum'', ''--keyid-format'', ''--sk-comments'',
    ''--keyring'', ''--skip-verify'', ''--keyserver'', ''--status-fd'',
    ''--keyserver-options'', ''--status-file'', ''--lc-ctype'', ''--store'',
    ''--lc-messages'', ''--strict'', ''--limit-card-insert-tries'', ''--symmetric'',
    ''--list-config'', ''--temp-directory'', ''--list-key'', ''--textmode'',
    ''--list-keys'', ''--throw-keyid'', ''--list-only'', ''--throw-keyids'',
    ''--list-options'', ''--trustdb-name'', ''--list-ownertrust'', ''--trusted-key'',
    ''--list-packets'', ''--trust-model'', ''--list-public-keys'', ''--try-all-secrets'',
    ''--list-secret-keys'', ''--ttyname'', ''--list-sig'', ''--ttytype'', ''--list-sigs'',
    ''--ungroup'', ''--list-trustdb'', ''--update-trustdb'', ''--load-extension'',
    ''--use-agent'', ''--local-user'', ''--use-embedded-filename'', ''--lock-multiple'',
    ''--user'', ''--lock-never'', ''--utf8-strings'', ''--lock-once'', ''--verbose'',
    ''--logger-fd'', ''--verify'', ''--logger-file'', ''--verify-files'', ''--lsign-key'',
    ''--verify-options'', ''--mangle-dos-filenames'', ''--version'',
    ''--marginals-needed'', ''--warranty'', ''--max-cert-depth'', ''--with-colons'',
    ''--max-output'', ''--with-fingerprint'', ''--merge-only'', ''--with-key-data'',
    ''--min-cert-level'', ''--yes'']"

definition possible :: "string set" where
  "possible = set all_opts"

definition allowed_opts :: "string list" where
  "allowed_opts =
     [''--list-packets'', ''--delete-keys'', ''--delete-secret-keys'',
      ''--encrypt'', ''--print-mds'', ''--print-md'', ''--sign'',
      ''--encrypt-files'', ''--gen-key'', ''--decrypt'', ''--decrypt-files'',
      ''--list-keys'', ''--import'', ''--verify'', ''--version'',
      ''--status-fd'', ''--no-tty'', ''--homedir'', ''--no-default-keyring'',
      ''--keyring'', ''--passphrase-fd'', ''--fingerprint'', ''--with-colons'']"

definition allowed :: "string set" where
  "allowed = set allowed_opts"

text \<open>
  What a caller may hand to the sanitiser: a string, a list of strings, or
  something else.
\<close>

datatype arg = Str string | StrList "string list" | Other

text \<open>
  The result is \<open>Inl e\<close> when \<open>e\<close> is raised, \<open>Inr None\<close> when the function falls
  through to its final \<^verbatim>\<open>return None\<close>, and \<open>Inr (Some input)\<close> when the option is
  accepted. The payload of \<open>ProtectedOption\<close> is the escaped option of the message.
  In the branch taken when \<^verbatim>\<open>input.find('_') > 0\<close> the hyphenated name is computed
  and nothing else is done with it: the membership test sits in the other branch.
\<close>

definition is_allowed :: "arg \<Rightarrow> error + string option" where
  "is_allowed a =
     (if \<not> allowed \<subseteq> possible then Inl UsageError
      else
        (case (case a of
                 Str s \<Rightarrow> Inr s
               | StrList xs \<Rightarrow> Inr (join '' '' xs)
               | Other \<Rightarrow> Inl TypeError) of
           Inl e \<Rightarrow> Inl e
         | Inr input \<Rightarrow>
             if find_char (CHR ''_'') input > 0 then
               (let hyphenated =
                      (if \<not> startswith input ''--'' then hyphenate input True
                       else hyphenate input False)
                in Inr None)
             else
               (let hyphenated = input in
                if hyphenated \<in> allowed then Inr (Some input)
                else Inl (ProtectedOption (fix_unsafe hyphenated)))))"

subsection \<open>\<^verbatim>\<open>_sanitise\<close>\<close>

text \<open>
  \<^verbatim>\<open>_is_file\<close> asks the file system (\<^verbatim>\<open>os.lstat\<close>), so the file system is a
  parameter \<open>is_file\<close> of the model. \<open>no_files\<close> is the file system in which no path
  names a non-empty file.
\<close>

definition no_files :: "string \<Rightarrow> bool" where
  "no_files p = False"

definition truthy_str :: "string \<Rightarrow> bool" where
  "truthy_str s = (s \<noteq> [])"

text \<open>The body of the loop over \<^verbatim>\<open>value_list\<close> in \<^verbatim>\<open>_check_arg_and_value\<close>.\<close>

definition add_value :: "(string \<Rightarrow> bool) \<Rightarrow> string \<Rightarrow> string \<Rightarrow> string \<Rightarrow> string" where
  "add_value is_file allowed_flag safe_values v =
     (let safe_value = fix_unsafe v in
      if allowed_flag = ''--encrypt'' \<or> truthy_str ''--encrypt-files''
         \<or> truthy_str ''--decrypt'' \<or> truthy_str ''--decrypt-file''
         \<or> truthy_str ''--import'' \<or> truthy_str ''--verify''
      then (if is_file safe_value then safe_values @ safe_value @ '' '' else safe_values)
      else safe_values @ safe_value @ '' '')"

text \<open>
  \<^verbatim>\<open>_check_arg_and_value(arg, value)\<close>: \<open>Inl e\<close> when an exception escapes, otherwise
  the returned string together with the exception that the \<^verbatim>\<open>except\<close> clause caught
  and logged, if any.
\<close>

definition check_arg_and_value ::
  "(string \<Rightarrow> bool) \<Rightarrow> string \<Rightarrow> string option \<Rightarrow> error + (string \<times> error option)" where
  "check_arg_and_value is_file a value =
     (case is_allowed (Str a) of
        Inl e \<Rightarrow>
          (case e of
             ProtectedOption m \<Rightarrow> Inr ([], Some (ProtectedOption m))
           | AssertionError \<Rightarrow> Inr ([], Some AssertionError)
           | _ \<Rightarrow> Inl e)
      | Inr None \<Rightarrow> Inr ([], Some AssertionError)
      | Inr (Some allowed_flag) \<Rightarrow>
          (let safe_values = allowed_flag @ '' '' in
           case value of
             None \<Rightarrow> Inr (safe_values, None)
           | Some v \<Rightarrow>
               (let value_list =
                      (if find_char (CHR '' '') v > 0 then split_on (CHR '' '') v else [])
                in Inr (foldl (add_value is_file allowed_flag) safe_values value_list, None))))"

definition is_flag :: "string \<Rightarrow> bool" where
  "is_flag x = startswith x ''-''"

text \<open>
  The list \<^verbatim>\<open>filo\<close> is the reversed token list; \<^verbatim>\<open>filo[0]\<close> is its head and
  \<^verbatim>\<open>filo.pop()\<close> removes and returns its last element.

  The inner loop \<^verbatim>\<open>while not is_flag(filo[0]): new_value += filo.pop() + ' '\<close>.
\<close>

function inner_loop :: "string list \<Rightarrow> string \<Rightarrow> error + (string list \<times> string)" where
  "inner_loop filo new_value =
     (case filo of
        [] \<Rightarrow> Inl IndexError
      | f0 # _ \<Rightarrow>
          if \<not> is_flag f0 then inner_loop (butlast filo) (new_value @ last filo @ '' '')
          else Inr (filo, new_value))"
  by pat_completeness auto
termination
  by (relation "measure (\<lambda>(filo, nv). length filo)") auto

text \<open>One pass through the body of \<^verbatim>\<open>while len(filo) > 0\<close>, up to the call of the checker.\<close>

definition filo_step ::
  "string list \<Rightarrow> string \<Rightarrow> string \<Rightarrow> error + (string list \<times> string \<times> string)" where
  "filo_step filo new_arg new_value =
     (case filo of
        [] \<Rightarrow> Inl IndexError
      | f0 # _ \<Rightarrow>
          if is_flag f0 then
            (let new_arg1 = last filo; filo1 = butlast filo in
             if length filo1 > 0 then
               (case inner_loop filo1 new_value of
                  Inl e \<Rightarrow> Inl e
                | Inr (filo2, new_value2) \<Rightarrow> Inr (filo2, new_arg1, new_value2))
             else Inr (filo1, new_arg1, new_value))
          else Inr (butlast filo, new_arg, new_value))"

text \<open>
  The loop \<^verbatim>\<open>while len(filo) > 0\<close>: \<open>checked\<close> is the list of accepted pieces and
  \<open>caught\<close> collects, in order, the exceptions that the checker caught and logged.
\<close>

definition opt_list :: "'a option \<Rightarrow> 'a list" where
  "opt_list x = (case x of None \<Rightarrow> [] | Some e \<Rightarrow> [e])"

function filo_loop ::
  "(string \<Rightarrow> bool) \<Rightarrow> string list \<Rightarrow> string \<Rightarrow> string \<Rightarrow> string list \<Rightarrow> error list
     \<Rightarrow> error + (string list \<times> error list)" where
  "filo_loop is_file filo new_arg new_value checked caught =
     (if length filo > 0 then
        (case filo_step filo new_arg new_value of
           Inl e \<Rightarrow> Inl e
         | Inr (filo1, new_arg1, new_value1) \<Rightarrow>
             (case check_arg_and_value is_file new_arg1 (Some new_value1) of
                Inl e \<Rightarrow> Inl e
              | Inr (safe, c) \<Rightarrow>
                  filo_loop is_file filo1 new_arg1 new_value1
                    (if py_strip safe \<noteq> [] then checked @ [safe] else checked)
                    (caught @ opt_list c)))
      else Inr (checked, caught))"
  by pat_completeness auto
termination
proof (relation "measure (\<lambda>(is_file, filo, new_arg, new_value, checked, caught). length filo)")
  show "wf (measure (\<lambda>(is_file, filo, new_arg, new_value, checked, caught). length filo))"
    by simp
next
  fix is_file :: "string \<Rightarrow> bool"
  fix filo :: "string list" and new_arg new_value :: string
  fix checked :: "string list" and caught :: "error list"
  fix x2 :: "string list \<times> string \<times> string"
  fix filo1 :: "string list" and y :: "string \<times> string" and new_arg1 new_value1 :: string
  fix x2a :: "string \<times> error option" and safe :: string and c :: "error option"
  assume nonempty: "0 < length filo"
    and step: "filo_step filo new_arg new_value = Inr x2"
    and x2: "(filo1, y) = x2" and y: "(new_arg1, new_value1) = y"
  have inner: "length f' \<le> length f" if "inner_loop f v = Inr (f', v')"
    for f f' :: "string list" and v v' :: string
    using that
    by (induction f v rule: inner_loop.induct) (auto split: list.splits if_splits)
  have "filo_step filo new_arg new_value = Inr (filo1, new_arg1, new_value1)"
    using step x2 y by simp
  then have "length filo1 < length filo"
    using nonempty
    by (auto simp: filo_step_def Let_def split: list.splits if_splits sum.splits
             dest!: inner)
  then show "((is_file, filo1, new_arg1, new_value1,
               if py_strip safe \<noteq> [] then checked @ [safe] else checked,
               caught @ opt_list c),
              is_file, filo, new_arg, new_value, checked, caught)
             \<in> measure (\<lambda>(is_file, filo, new_arg, new_value, checked, caught). length filo)"
    by simp
qed

text \<open>The loop \<^verbatim>\<open>for a in arg\<close> over a list argument.\<close>

fun sanitise_items ::
  "(string \<Rightarrow> bool) \<Rightarrow> string list \<Rightarrow> string list \<Rightarrow> error list
     \<Rightarrow> error + (string list \<times> error list)" where
  "sanitise_items is_file [] checked caught = Inr (checked, caught)"
| "sanitise_items is_file (a # rest) checked caught =
     (if startswith a ''--'' then
        (case check_arg_and_value is_file a None of
           Inl e \<Rightarrow> Inl e
         | Inr (safe, c) \<Rightarrow>
             sanitise_items is_file rest (checked @ [safe]) (caught @ opt_list c))
      else sanitise_items is_file rest checked caught)"

text \<open>The body of \<^verbatim>\<open>for arg in args\<close>.\<close>

definition sanitise_arg ::
  "(string \<Rightarrow> bool) \<Rightarrow> arg \<Rightarrow> string list \<Rightarrow> error list
     \<Rightarrow> error + (string list \<times> error list)" where
  "sanitise_arg is_file a checked caught =
     (case a of
        Str s \<Rightarrow>
          if find_char (CHR '' '') s > 0 then
            filo_loop is_file (rev (py_split s)) [] [] checked caught
          else
            (case check_arg_and_value is_file s None of
               Inl e \<Rightarrow> Inl e
             | Inr (safe, c) \<Rightarrow> Inr (checked @ [safe], caught @ opt_list c))
      | StrList xs \<Rightarrow> sanitise_items is_file xs checked caught
      | Other \<Rightarrow> Inr (checked, caught))"

fun sanitise_args ::
  "(string \<Rightarrow> bool) \<Rightarrow> arg list \<Rightarrow> string list \<Rightarrow> error list
     \<Rightarrow> error + (string list \<times> error list)" where
  "sanitise_args is_file [] checked caught = Inr (checked, caught)"
| "sanitise_args is_file (a # rest) checked caught =
     (case sanitise_arg is_file a checked caught of
        Inl e \<Rightarrow> Inl e
      | Inr (checked1, caught1) \<Rightarrow> sanitise_args is_file rest checked1 caught1)"

text \<open>
  \<^verbatim>\<open>_sanitise(*args)\<close>: the returned string, and the exceptions caught on the way.
\<close>

definition sanitise :: "(string \<Rightarrow> bool) \<Rightarrow> arg list \<Rightarrow> error + (string \<times> error list)" where
  "sanitise is_file args =
     (case sanitise_args is_file args [] [] of
        Inl e \<Rightarrow> Inl e
      | Inr (checked, caught) \<Rightarrow> Inr (join '' '' checked, caught))"

text \<open>
  \<^verbatim>\<open>_sanitise_list(arg_list)\<close>, for a list: the strings the generator yields, and the
  exceptions caught on the way.
\<close>

fun sanitise_list ::
  "(string \<Rightarrow> bool) \<Rightarrow> arg list \<Rightarrow> error + (string list \<times> error list)" where
  "sanitise_list is_file [] = Inr ([], [])"
| "sanitise_list is_file (a # rest) =
     (case sanitise is_file [a] of
        Inl e \<Rightarrow> Inl e
      | Inr (safe_arg, caught) \<Rightarrow>
          (case sanitise_list is_file rest of
             Inl e \<Rightarrow> Inl e
           | Inr (ys, caught1) \<Rightarrow>
               Inr ((if safe_arg \<noteq> [] then [safe_arg] else []) @ ys, caught @ caught1)))"

section \<open>Result state machines\<close>

text \<open>
  A handler mutates its object and may then raise. Its model returns the object as
  the call leaves it, together with the exception raised, if any: assignments made
  before a \<^verbatim>\<open>raise\<close> stay visible. A tuple assignment unpacks its right-hand side
  before it stores anything, so a ValueError for a wrong number of items leaves the
  targets of that assignment untouched. Keyword and value come from
  \<^verbatim>\<open>_read_response\<close>, so they are decoded text and the handlers split them with the
  whitespace class of decoded text.
\<close>

subsection \<open>\<^verbatim>\<open>Verify\<close>\<close>

record verify =
  valid :: bool
  fingerprint :: "string option"
  creation_date :: "string option"
  timestamp :: "string option"
  signature_id :: "string option"
  key_id :: "string option"
  username :: "string option"
  status :: "string option"
  pubkey_fingerprint :: "string option"
  expire_timestamp :: "string option"
  sig_timestamp :: "string option"
  trust_text :: "string option"
  trust_level :: "nat option"

definition TRUST_LEVELS :: "(string \<times> nat) list" where
  "TRUST_LEVELS =
     [(''TRUST_UNDEFINED'', 0), (''TRUST_NEVER'', 1), (''TRUST_MARGINAL'', 2),
      (''TRUST_FULLY'', 3), (''TRUST_ULTIMATE'', 4)]"

definition verify_init :: verify where
  "verify_init =
     \<lparr>valid = False, fingerprint = None, creation_date = None, timestamp = None,
      signature_id = None, key_id = None, username = None, status = None,
      pubkey_fingerprint = None, expire_timestamp = None, sig_timestamp = None,
      trust_text = None, trust_level = None\<rparr>"

definition verify_nonzero :: "'a verify_scheme \<Rightarrow> bool" where
  "verify_nonzero self = valid self"

definition verify_handle_status ::
  "string \<Rightarrow> string \<Rightarrow> 'a verify_scheme \<Rightarrow> 'a verify_scheme \<times> error option" where
  "verify_handle_status key v self =
     (if key \<in> fst ` set TRUST_LEVELS then
        (self\<lparr>trust_text := Some key, trust_level := map_of TRUST_LEVELS key\<rparr>, None)
      else if key \<in> set [''RSA_OR_IDEA'', ''NODATA'', ''IMPORT_RES'', ''PLAINTEXT'',
                          ''PLAINTEXT_LENGTH'', ''POLICY_URL'', ''DECRYPTION_INFO'',
                          ''DECRYPTION_OKAY'', ''INV_SGNR''] then
        (self, None)
      else if key = ''BADSIG'' then
        (let self1 = self\<lparr>valid := False, status := Some ''signature bad''\<rparr> in
         case u_split1 v of
           [k, u] \<Rightarrow> (self1\<lparr>key_id := Some k, username := Some u\<rparr>, None)
         | _ \<Rightarrow> (self1, Some ValueError))
      else if key = ''GOODSIG'' then
        (let self1 = self\<lparr>valid := True, status := Some ''signature good''\<rparr> in
         case u_split1 v of
           [k, u] \<Rightarrow> (self1\<lparr>key_id := Some k, username := Some u\<rparr>, None)
         | _ \<Rightarrow> (self1, Some ValueError))
      else if key = ''VALIDSIG'' then
        (case take 4 (u_split v) of
           [f, c, s, e] \<Rightarrow>
             (self\<lparr>fingerprint := Some f, creation_date := Some c,
                   sig_timestamp := Some s, expire_timestamp := Some e,
                   pubkey_fingerprint := Some (last (u_split v)),
                   status := Some ''signature valid''\<rparr>, None)
         | _ \<Rightarrow> (self, Some ValueError))
      else if key = ''SIG_ID'' then
        (case u_split v of
           [i, c, t] \<Rightarrow>
             (self\<lparr>signature_id := Some i, creation_date := Some c, timestamp := Some t\<rparr>,
              None)
         | _ \<Rightarrow> (self, Some ValueError))
      else if key = ''ERRSIG'' then
        (let self1 = self\<lparr>valid := False\<rparr> in
         case take 5 (u_split v) of
           [k, algo, hash_algo, cls, t] \<Rightarrow>
             (self1\<lparr>key_id := Some k, timestamp := Some t,
                    status := Some ''signature error''\<rparr>, None)
         | _ \<Rightarrow> (self1, Some ValueError))
      else if key = ''DECRYPTION_FAILED'' then
        (self\<lparr>valid := False, key_id := Some v, status := Some ''decryption failed''\<rparr>,
         None)
      else if key = ''NO_PUBKEY'' then
        (self\<lparr>valid := False, key_id := Some v, status := Some ''no public key''\<rparr>, None)
      else if key \<in> set [''KEYEXPIRED'', ''SIGEXPIRED''] then
        (self, None)
      else if key \<in> set [''EXPKEYSIG'', ''REVKEYSIG''] then
        (let self1 = self\<lparr>valid := False\<rparr> in
         case u_split v of
           [] \<Rightarrow> (self1, Some IndexError)
         | k # _ \<Rightarrow>
             (self1\<lparr>key_id := Some k,
                    status := Some (py_lower (take 3 key @ '' '' @ drop 3 key))\<rparr>, None))
      else (self, Some (UnknownStatusMessage key)))"

text \<open>The keywords for which \<^verbatim>\<open>Verify.handle_status\<close> has a branch.\<close>

definition verify_keywords :: "string list" where
  "verify_keywords =
     map fst TRUST_LEVELS @
     [''RSA_OR_IDEA'', ''NODATA'', ''IMPORT_RES'', ''PLAINTEXT'', ''PLAINTEXT_LENGTH'',
      ''POLICY_URL'', ''DECRYPTION_INFO'', ''DECRYPTION_OKAY'', ''INV_SGNR'',
      ''BADSIG'', ''GOODSIG'', ''VALIDSIG'', ''SIG_ID'', ''ERRSIG'', ''DECRYPTION_FAILED'',
      ''NO_PUBKEY'', ''KEYEXPIRED'', ''SIGEXPIRED'', ''EXPKEYSIG'', ''REVKEYSIG'']"

subsection \<open>\<^verbatim>\<open>Crypt\<close>, a subclass of \<^verbatim>\<open>Verify\<close>\<close>

record crypt = verify +
  data :: string
  ok :: bool

definition crypt_init :: crypt where
  "crypt_init =
     \<lparr>valid = False, fingerprint = None, creation_date = None, timestamp = None,
      signature_id = None, key_id = None, username = None, status = Some [],
      pubkey_fingerprint = None, expire_timestamp = None, sig_timestamp = None,
      trust_text = None, trust_level = None, data = [], ok = False\<rparr>"

definition crypt_nonzero :: "crypt \<Rightarrow> bool" where
  "crypt_nonzero self = (if ok self then True else False)"

definition crypt_handle_status :: "string \<Rightarrow> string \<Rightarrow> crypt \<Rightarrow> crypt \<times> error option" where
  "crypt_handle_status key v self =
     (if key \<in> set [''ENC_TO'', ''USERID_HINT'', ''GOODMDC'', ''END_DECRYPTION'',
                     ''BEGIN_SIGNING'', ''NO_SECKEY'', ''ERROR'', ''NODATA'', ''CARDCTRL''] then
        (self, None)
      else if key \<in> set [''NEED_PASSPHRASE'', ''BAD_PASSPHRASE'', ''GOOD_PASSPHRASE'',
                          ''MISSING_PASSPHRASE'', ''DECRYPTION_FAILED'',
                          ''KEY_NOT_CREATED''] then
        (self\<lparr>status := Some (py_lower (replace_char (CHR ''_'') '' '' key))\<rparr>, None)
      else if key = ''NEED_PASSPHRASE_SYM'' then
        (self\<lparr>status := Some ''need symmetric passphrase''\<rparr>, None)
      else if key = ''BEGIN_DECRYPTION'' then
        (self\<lparr>status := Some ''decryption incomplete''\<rparr>, None)
      else if key = ''BEGIN_ENCRYPTION'' then
        (self\<lparr>status := Some ''encryption incomplete''\<rparr>, None)
      else if key = ''DECRYPTION_OKAY'' then
        (self\<lparr>status := Some ''decryption ok'', ok := True\<rparr>, None)
      else if key = ''END_ENCRYPTION'' then
        (self\<lparr>status := Some ''encryption ok'', ok := True\<rparr>, None)
      else if key = ''INV_RECP'' then
        (self\<lparr>status := Some ''invalid recipient''\<rparr>, None)
      else if key = ''KEYEXPIRED'' then
        (self\<lparr>status := Some ''key expired''\<rparr>, None)
      else if key = ''SIG_CREATED'' then
        (self\<lparr>status := Some ''sig created''\<rparr>, None)
      else if key = ''SIGEXPIRED'' then
        (self\<lparr>status := Some ''sig expired''\<rparr>, None)
      else verify_handle_status key v self)"

definition crypt_keywords :: "string list" where
  "crypt_keywords =
     [''ENC_TO'', ''USERID_HINT'', ''GOODMDC'', ''END_DECRYPTION'', ''BEGIN_SIGNING'',
      ''NO_SECKEY'', ''ERROR'', ''NODATA'', ''CARDCTRL'',
      ''NEED_PASSPHRASE'', ''BAD_PASSPHRASE'', ''GOOD_PASSPHRASE'', ''MISSING_PASSPHRASE'',
      ''DECRYPTION_FAILED'', ''KEY_NOT_CREATED'', ''NEED_PASSPHRASE_SYM'',
      ''BEGIN_DECRYPTION'', ''BEGIN_ENCRYPTION'', ''DECRYPTION_OKAY'', ''END_ENCRYPTION'',
      ''INV_RECP'', ''KEYEXPIRED'', ''SIG_CREATED'', ''SIGEXPIRED'']
     @ verify_keywords"

subsection \<open>\<^verbatim>\<open>ImportResult\<close>\<close>

text \<open>
  An element of \<^verbatim>\<open>results\<close> is a dictionary with the keys \<^verbatim>\<open>fingerprint\<close>, \<^verbatim>\<open>text\<close>
  and one of \<^verbatim>\<open>ok\<close> and \<^verbatim>\<open>problem\<close>; a key that is absent is \<open>None\<close> here, and so is
  the fingerprint \<^verbatim>\<open>None\<close>.
\<close>

record import_entry =
  e_fingerprint :: "string option"
  e_ok :: "string option"
  e_problem :: "string option"
  e_text :: string

text \<open>
  The thirteen counters are attributes set by name (\<^verbatim>\<open>setattr\<close>); they are a map
  from the attribute name to its value, where \<open>None\<close> is Python's \<^verbatim>\<open>None\<close>. The
  constructor's \<^verbatim>\<open>self.imported = []\<close> is overwritten by its loop over \<^verbatim>\<open>counts\<close>.
\<close>

record import_result =
  results :: "import_entry list"
  fingerprints :: "string list"
  attrs :: "string \<rightharpoonup> int"

definition counts :: "string list" where
  "counts =
     [''count'', ''no_user_id'', ''imported'', ''imported_rsa'', ''unchanged'',
      ''n_uids'', ''n_subk'', ''n_sigs'', ''n_revoc'', ''sec_read'', ''sec_imported'',
      ''sec_dups'', ''not_imported'']"

definition import_init :: import_result where
  "import_init = \<lparr>results = [], fingerprints = [], attrs = Map.empty\<rparr>"

definition not_imported :: "import_result \<Rightarrow> int option" where
  "not_imported self = attrs self ''not_imported''"

text \<open>The truth value of an attribute that is \<^verbatim>\<open>None\<close> or an integer.\<close>

definition truthy_int :: "int option \<Rightarrow> bool" where
  "truthy_int x = (case x of None \<Rightarrow> False | Some n \<Rightarrow> n \<noteq> 0)"

definition import_nonzero :: "import_result \<Rightarrow> bool" where
  "import_nonzero self =
     (if truthy_int (not_imported self) then False
      else if \<not> (fingerprints self \<noteq> []) then False
      else True)"

text \<open>
  The dictionaries \<^verbatim>\<open>ok_reason\<close> and \<^verbatim>\<open>problem_reason\<close>, as the lists of their
  entries. \<^verbatim>\<open>problem_reason\<close> is only looked up by key. \<^verbatim>\<open>ok_reason\<close> is iterated:
  \<^verbatim>\<open>list(self.ok_reason.items())\<close> is the list of its entries in the iteration order
  of the dictionary, which the language does not fix (it is the hash order in
  Python 2 and the insertion order in Python 3.7). That list is the parameter
  \<open>items\<close> of the handler, and \<open>items_of\<close> says that a list is such an iteration
  order of a dictionary.
\<close>

definition ok_reason :: "(string \<times> string) list" where
  "ok_reason =
     [(''0'', ''Not actually changed''),
      (''1'', ''Entirely new key''),
      (''2'', ''New user IDs''),
      (''4'', ''New signatures''),
      (''8'', ''New subkeys''),
      (''16'', ''Contains private key'')]"

definition items_of :: "('k \<times> 'v) list \<Rightarrow> ('k \<times> 'v) list \<Rightarrow> bool" where
  "items_of dict items = (distinct items \<and> set items = set dict)"

text \<open>
  The iteration order that CPython 2.7 gives \<^verbatim>\<open>ok_reason\<close>, and the source order.
\<close>

definition ok_reason_hash_order :: "(string \<times> string) list" where
  "ok_reason_hash_order =
     [(''16'', ''Contains private key''),
      (''1'', ''Entirely new key''),
      (''0'', ''Not actually changed''),
      (''2'', ''New user IDs''),
      (''4'', ''New signatures''),
      (''8'', ''New subkeys'')]"

definition problem_reason :: "(string \<times> string) list" where
  "problem_reason =
     [(''0'', ''No specific reason given''),
      (''1'', ''Invalid Certificate''),
      (''2'', ''Issuer Certificate missing''),
      (''3'', ''Certificate Chain too long''),
      (''4'', ''Error storing certificate'')]"

text \<open>
  The loop \<^verbatim>\<open>for code, text in list(self.ok_reason.items())\<close> with its test
  \<^verbatim>\<open>int(reason) | int(code) == int(reason)\<close>, over the items still to visit. The
  reason is decoded text and the code is a key of the dictionary, a byte string.
\<close>

fun collect_reasons ::
  "string \<Rightarrow> (string \<times> string) list \<Rightarrow> string list \<Rightarrow> error + string list" where
  "collect_reasons reason [] reasons = Inr reasons"
| "collect_reasons reason ((code, text) # rest) reasons =
     (case u_int reason of
        None \<Rightarrow> Inl ValueError
      | Some r \<Rightarrow>
          (case py_int code of
             None \<Rightarrow> Inl ValueError
           | Some c \<Rightarrow>
               collect_reasons reason rest
                 (if or r c = r then reasons @ [text] else reasons)))"

text \<open>
  The loop \<^verbatim>\<open>for i in range(len(self.counts)): setattr(self, self.counts[i],
  int(import_res[i]))\<close>, over the indices still to do.
\<close>

fun set_counts ::
  "nat list \<Rightarrow> string list \<Rightarrow> import_result \<Rightarrow> import_result \<times> error option" where
  "set_counts [] import_res self = (self, None)"
| "set_counts (i # rest) import_res self =
     (if i < length import_res then
        (case u_int (import_res ! i) of
           None \<Rightarrow> (self, Some ValueError)
         | Some n \<Rightarrow>
             set_counts rest import_res (self\<lparr>attrs := (attrs self)(counts ! i \<mapsto> n)\<rparr>))
      else (self, Some IndexError))"

definition import_handle_status ::
  "(string \<times> string) list \<Rightarrow> string \<Rightarrow> string \<Rightarrow> import_result
     \<Rightarrow> import_result \<times> error option" where
  "import_handle_status items key v self =
     (if key = ''IMPORTED'' then (self, None)
      else if key = ''NODATA'' then
        (self\<lparr>results := results self @
            [\<lparr>e_fingerprint = None, e_ok = None, e_problem = Some ''0'',
              e_text = ''No valid data found''\<rparr>]\<rparr>, None)
      else if key = ''IMPORT_OK'' then
        (case u_split v of
           [reason, fpr] \<Rightarrow>
             (case collect_reasons reason items [] of
                Inl e \<Rightarrow> (self, Some e)
              | Inr reasons \<Rightarrow>
                  (let reasontext = join [CHR 0x0A] reasons @ [CHR 0x0A] in
                   (self\<lparr>results := results self @
                       [\<lparr>e_fingerprint = Some fpr, e_ok = Some reason, e_problem = None,
                         e_text = reasontext\<rparr>],
                     fingerprints := fingerprints self @ [fpr]\<rparr>, None)))
         | _ \<Rightarrow> (self, Some ValueError))
      else if key = ''IMPORT_PROBLEM'' then
        (let (reason, fpr) =
               (case u_split v of
                  [r, f] \<Rightarrow> (r, f)
                | _ \<Rightarrow> (v, ''<unknown>''))
         in case map_of problem_reason reason of
              None \<Rightarrow> (self, Some KeyError)
            | Some t \<Rightarrow>
                (self\<lparr>results := results self @
                    [\<lparr>e_fingerprint = Some fpr, e_ok = None, e_problem = Some reason,
                      e_text = t\<rparr>]\<rparr>, None))
      else if key = ''IMPORT_RES'' then
        (let import_res = u_split v in
         set_counts [0 ..< length counts] import_res self)
      else if key = ''KEYEXPIRED'' then
        (self\<lparr>results := results self @
            [\<lparr>e_fingerprint = None, e_ok = None, e_problem = Some ''0'',
              e_text = ''Key expired''\<rparr>]\<rparr>, None)
      else if key = ''SIGEXPIRED'' then
        (self\<lparr>results := results self @
            [\<lparr>e_fingerprint = None, e_ok = None, e_problem = Some ''0'',
              e_text = ''Signature expired''\<rparr>]\<rparr>, None)
      else (self, Some (UnknownStatusMessage key)))"

definition import_keywords :: "string list" where
  "import_keywords =
     [''IMPORTED'', ''NODATA'', ''IMPORT_OK'', ''IMPORT_PROBLEM'', ''IMPORT_RES'',
      ''KEYEXPIRED'', ''SIGEXPIRED'']"

subsection \<open>\<^verbatim>\<open>ListKeys\<close>\<close>

text \<open>
  \<^verbatim>\<open>ListKeys\<close> is filled from the colon-separated listing on standard output by its
  methods \<^verbatim>\<open>key\<close>, \<^verbatim>\<open>fpr\<close>, \<^verbatim>\<open>uid\<close> and \<^verbatim>\<open>sub\<close>; the body of its
  \<^verbatim>\<open>handle_status\<close> is \<^verbatim>\<open>pass\<close>. A key record is a dictionary of strings with its
  lists of user ids and of subkeys.
\<close>

record key_record =
  k_fields :: "string \<rightharpoonup> string"
  k_uids :: "string list"
  k_subkeys :: "(string \<times> string) list"

record list_keys =
  keys :: "key_record list"
  curkey :: "key_record option"
  lk_fingerprints :: "string list"
  lk_uids :: "string list"

definition list_keys_init :: list_keys where
  "list_keys_init = \<lparr>keys = [], curkey = None, lk_fingerprints = [], lk_uids = []\<rparr>"

definition list_keys_handle_status ::
  "string \<Rightarrow> string \<Rightarrow> list_keys \<Rightarrow> list_keys \<times> error option" where
  "list_keys_handle_status key v self = (self, None)"

subsection \<open>\<^verbatim>\<open>GenKey\<close>\<close>

record gen_key =
  gk_type :: "string option"
  gk_fingerprint :: "string option"

definition gen_key_init :: gen_key where
  "gen_key_init = \<lparr>gk_type = None, gk_fingerprint = None\<rparr>"

definition gen_key_nonzero :: "gen_key \<Rightarrow> bool" where
  "gen_key_nonzero self =
     (if (case gk_fingerprint self of None \<Rightarrow> False | Some f \<Rightarrow> f \<noteq> []) then True
      else False)"

definition gen_key_handle_status ::
  "string \<Rightarrow> string \<Rightarrow> gen_key \<Rightarrow> gen_key \<times> error option" where
  "gen_key_handle_status key v self =
     (if key \<in> set [''PROGRESS'', ''GOOD_PASSPHRASE'', ''NODATA'', ''KEY_NOT_CREATED''] then
        (self, None)
      else if key = ''KEY_CREATED'' then
        (case u_split v of
           [t, f] \<Rightarrow> (self\<lparr>gk_type := Some t, gk_fingerprint := Some f\<rparr>, None)
         | _ \<Rightarrow> (self, Some ValueError))
      else (self, Some (UnknownStatusMessage key)))"

definition gen_key_keywords :: "string list" where
  "gen_key_keywords =
     [''PROGRESS'', ''GOOD_PASSPHRASE'', ''NODATA'', ''KEY_NOT_CREATED'', ''KEY_CREATED'']"

subsection \<open>\<^verbatim>\<open>DeleteResult\<close>\<close>

record delete_result =
  dr_status :: string

definition delete_init :: delete_result where
  "delete_init = \<lparr>dr_status = ''ok''\<rparr>"

definition delete_problem_reason :: "(string \<times> string) list" where
  "delete_problem_reason =
     [(''1'', ''No such key''),
      (''2'', ''Must delete secret key first''),
      (''3'', ''Ambigious specification'')]"

text \<open>
  The default of the lookup is \<^verbatim>\<open>"Unknown error: %r" % value\<close>; Python's \<^verbatim>\<open>repr\<close> is
  the parameter \<open>repr\<close>.
\<close>

definition delete_handle_status ::
  "(string \<Rightarrow> string) \<Rightarrow> string \<Rightarrow> string \<Rightarrow> delete_result
     \<Rightarrow> delete_result \<times> error option" where
  "delete_handle_status repr key v self =
     (if key = ''DELETE_PROBLEM'' then
        (self\<lparr>dr_status :=
            (case map_of delete_problem_reason v of
               Some t \<Rightarrow> t
             | None \<Rightarrow> ''Unknown error: '' @ repr v)\<rparr>, None)
      else (self, Some (UnknownStatusMessage key)))"

definition delete_keywords :: "string list" where
  "delete_keywords = [''DELETE_PROBLEM'']"

subsection \<open>\<^verbatim>\<open>Sign\<close>\<close>

text \<open>The attribute \<^verbatim>\<open>timestamp\<close> does not exist before a SIG_CREATED event.\<close>

record sign =
  sg_type :: "string option"
  sg_fingerprint :: "string option"
  sg_timestamp :: "string option"

definition sign_init :: sign where
  "sign_init = \<lparr>sg_type = None, sg_fingerprint = None, sg_timestamp = None\<rparr>"

definition sign_nonzero :: "sign \<Rightarrow> bool" where
  "sign_nonzero self = (sg_fingerprint self \<noteq> None)"

definition sign_handle_status :: "string \<Rightarrow> string \<Rightarrow> sign \<Rightarrow> sign \<times> error option" where
  "sign_handle_status key v self =
     (if key \<in> set [''USERID_HINT'', ''NEED_PASSPHRASE'', ''BAD_PASSPHRASE'',
                     ''GOOD_PASSPHRASE'', ''BEGIN_SIGNING'', ''CARDCTRL'', ''INV_SGNR'',
                     ''NODATA''] then
        (self, None)
      else if key = ''SIG_CREATED'' then
        (case u_split v of
           [t, algo, hashalgo, cls, ts, f] \<Rightarrow>
             (self\<lparr>sg_type := Some t, sg_timestamp := Some ts, sg_fingerprint := Some f\<rparr>,
              None)
         | _ \<Rightarrow> (self, Some ValueError))
      else (self, Some (UnknownStatusMessage key)))"

definition sign_keywords :: "string list" where
  "sign_keywords =
     [''USERID_HINT'', ''NEED_PASSPHRASE'', ''BAD_PASSPHRASE'', ''GOOD_PASSPHRASE'',
      ''BEGIN_SIGNING'', ''CARDCTRL'', ''INV_SGNR'', ''NODATA'', ''SIG_CREATED'']"

section \<open>The status-line parser \<^verbatim>\<open>GPG._read_response\<close>\<close>

text \<open>
  The stream is the list of the strings that successive \<^verbatim>\<open>readline()\<close> calls return;
  past its end \<^verbatim>\<open>readline()\<close> returns the empty string. The result object is any
  state with a handler. The outcome records the result object, the handler calls made
  (keyword and value, in order), the lines retained, the value assigned to
  \<^verbatim>\<open>result.stderr\<close> (\<open>None\<close> when the assignment is not reached) and the exception that
  escapes, if any.
\<close>

record 's response =
  rr_result :: 's
  rr_calls :: "(string \<times> string) list"
  rr_lines :: "string list"
  rr_stderr :: "string option"
  rr_raised :: "error option"

definition status_prefix :: string where
  "status_prefix = ''[GNUPG:] ''"

fun read_loop ::
  "(string \<Rightarrow> string \<Rightarrow> 's \<Rightarrow> 's \<times> error option) \<Rightarrow> string list \<Rightarrow> 's
     \<Rightarrow> (string \<times> string) list \<Rightarrow> string list \<Rightarrow> 's response" where
  "read_loop handle_status [] result calls lines =
     \<lparr>rr_result = result, rr_calls = calls, rr_lines = lines,
      rr_stderr = Some (concat lines), rr_raised = None\<rparr>"
| "read_loop handle_status (line # stream) result calls lines =
     (if length line = 0 then
        \<lparr>rr_result = result, rr_calls = calls, rr_lines = lines,
         rr_stderr = Some (concat lines), rr_raised = None\<rparr>
      else
        (let lines1 = lines @ [line];
             line1 = u_rstrip line
         in if take 9 line1 = status_prefix then
              (let line2 = drop 9 line1;
                   L = u_split1 line2
               in case L of
                    [] \<Rightarrow>
                      \<lparr>rr_result = result, rr_calls = calls, rr_lines = lines1,
                       rr_stderr = None, rr_raised = Some IndexError\<rparr>
                  | keyword # _ \<Rightarrow>
                      (let val = (if length L > 1 then L ! 1 else []) in
                       case handle_status keyword val result of
                         (result1, Some e) \<Rightarrow>
                           \<lparr>rr_result = result1, rr_calls = calls @ [(keyword, val)],
                            rr_lines = lines1, rr_stderr = None, rr_raised = Some e\<rparr>
                       | (result1, None) \<Rightarrow>
                           read_loop handle_status stream result1
                             (calls @ [(keyword, val)]) lines1))
            else read_loop handle_status stream result calls lines1))"

definition read_response ::
  "(string \<Rightarrow> string \<Rightarrow> 's \<Rightarrow> 's \<times> error option) \<Rightarrow> string list \<Rightarrow> 's \<Rightarrow> 's response" where
  "read_response handle_status stream result = read_loop handle_status stream result [] []"

section \<open>The stream copier \<^verbatim>\<open>_copy_data\<close>\<close>

text \<open>
  The source is the byte string still unread in \<^verbatim>\<open>instream\<close>; \<^verbatim>\<open>read(1024)\<close> returns
  its first 1024 bytes (all of them when fewer remain). The sink is given by what its
  calls do: \<open>write n d\<close> is the outcome of the call of \<^verbatim>\<open>outstream.write\<close> number \<open>n\<close>
  (counted from 0) with argument \<open>d\<close>, \<open>None\<close> when the call returns and \<open>Some e\<close> when
  it raises \<open>e\<close>; \<open>encode d\<close> is the outcome of \<^verbatim>\<open>data.encode(enc)\<close>; \<open>close_outcome\<close>
  is the outcome of \<^verbatim>\<open>outstream.close()\<close>. \<open>IOError\<close> stands for IOError and its
  subclasses. The two \<^verbatim>\<open>isinstance\<close> checks are the parameters \<open>instream_ok\<close> and
  \<open>outstream_ok\<close>.

  The outcome records the chunks written, the number of calls of \<^verbatim>\<open>write\<close>, the
  counter \<^verbatim>\<open>sent\<close>, whether \<^verbatim>\<open>outstream.close()\<close> was called, the messages passed to
  \<^verbatim>\<open>logger.exception\<close>, and the exception that escapes, if any.
\<close>

record copy_state =
  cs_written :: "string list"
  cs_calls :: nat
  cs_sent :: nat
  cs_closed :: bool
  cs_log :: "string list"
  cs_raised :: "error option"

definition copy_init :: copy_state where
  "copy_init =
     \<lparr>cs_written = [], cs_calls = 0, cs_sent = 0, cs_closed = False, cs_log = [],
      cs_raised = None\<rparr>"

text \<open>
  The loop \<^verbatim>\<open>while True\<close>. It ends by \<^verbatim>\<open>break\<close> (\<open>cs_raised\<close> stays \<open>None\<close>) or by an
  exception that no handler of the loop catches.
\<close>

function copy_loop ::
  "(nat \<Rightarrow> string \<Rightarrow> error option) \<Rightarrow> (string \<Rightarrow> error + string) \<Rightarrow> string \<Rightarrow> copy_state
     \<Rightarrow> copy_state" where
  "copy_loop write encode src st =
     (let chunk = take 1024 src in
      if length chunk = 0 then st
      else
        (let st1 = st\<lparr>cs_sent := cs_sent st + length chunk\<rparr> in
         case write (cs_calls st1) chunk of
           None \<Rightarrow>
             copy_loop write encode (drop 1024 src)
               (st1\<lparr>cs_written := cs_written st1 @ [chunk], cs_calls := cs_calls st1 + 1\<rparr>)
         | Some e \<Rightarrow>
             if e = UnicodeError then
               (case encode chunk of
                  Inl e1 \<Rightarrow> st1\<lparr>cs_calls := cs_calls st1 + 1, cs_raised := Some e1\<rparr>
                | Inr encoded \<Rightarrow>
                    (case write (cs_calls st1 + 1) encoded of
                       None \<Rightarrow>
                         copy_loop write encode (drop 1024 src)
                           (st1\<lparr>cs_written := cs_written st1 @ [encoded],
                                 cs_calls := cs_calls st1 + 2\<rparr>)
                     | Some e2 \<Rightarrow>
                         if e2 = IOError then
                           st1\<lparr>cs_calls := cs_calls st1 + 2,
                                cs_log := cs_log st1 @ [''Error sending data: Broken pipe'']\<rparr>
                         else st1\<lparr>cs_calls := cs_calls st1 + 2, cs_raised := Some e2\<rparr>))
             else if e = IOError then
               st1\<lparr>cs_calls := cs_calls st1 + 1,
                    cs_log := cs_log st1 @ [''Error sending data: Broken pipe'']\<rparr>
             else st1\<lparr>cs_calls := cs_calls st1 + 1, cs_raised := Some e\<rparr>))"
  by pat_completeness auto
termination
  by (relation "measure (\<lambda>(write, encode, src, st). length src)") auto

definition copy_data ::
  "bool \<Rightarrow> bool \<Rightarrow> (nat \<Rightarrow> string \<Rightarrow> error option) \<Rightarrow> (string \<Rightarrow> error + string)
     \<Rightarrow> error option \<Rightarrow> string \<Rightarrow> copy_state" where
  "copy_data instream_ok outstream_ok write encode close_outcome src =
     (if \<not> instream_ok then copy_init\<lparr>cs_log := [''instream is not a file'']\<rparr>
      else if \<not> outstream_ok then copy_init\<lparr>cs_log := [''outstream is not a file'']\<rparr>
      else
        (let st = copy_loop write encode src copy_init in
         if cs_raised st \<noteq> None then st
         else
           (case close_outcome of
              None \<Rightarrow> st\<lparr>cs_closed := True\<rparr>
            | Some e \<Rightarrow>
                if e = IOError then
                  st\<lparr>cs_closed := True,
                     cs_log := cs_log st @ [''Got IOError while trying to close FD outstream'']\<rparr>
                else st\<lparr>cs_closed := True, cs_raised := Some e\<rparr>)))"





section \<open>The specification's words for a status line\<close>

text \<open>
  The event of a status line as the specification describes it: the prefix is
  stripped, the keyword is the first whitespace-delimited token, and the value is
  what follows the first whitespace run after it, empty if nothing follows.
\<close>

definition spec_event :: "string \<Rightarrow> string \<times> string" where
  "spec_event line =
     (let body = dropWhile is_uspace (drop (length status_prefix) (u_rstrip line)) in
      (takeWhile (\<lambda>c. \<not> is_uspace c) body,
       dropWhile is_uspace (dropWhile (\<lambda>c. \<not> is_uspace c) body)))"

text \<open>
  The specification's words for the dispatch: the handler of the current result is
  invoked with each event in turn, and an exception raised by a call ends the
  dispatch. The outcome is the result object as the last call left it, the calls made
  and the exception raised, if any.
\<close>

fun spec_dispatch ::
  "(string \<Rightarrow> string \<Rightarrow> 's \<Rightarrow> 's \<times> error option) \<Rightarrow> (string \<times> string) list \<Rightarrow> 's
     \<Rightarrow> (string \<times> string) list \<Rightarrow> 's \<times> (string \<times> string) list \<times> error option" where
  "spec_dispatch handle_status [] result calls = (result, calls, None)"
| "spec_dispatch handle_status ((keyword, val) # events) result calls =
     (case handle_status keyword val result of
        (result1, Some e) \<Rightarrow> (result1, calls @ [(keyword, val)], Some e)
      | (result1, None) \<Rightarrow>
          spec_dispatch handle_status events result1 (calls @ [(keyword, val)]))"

text \<open>A line passes the prefix test of \<^verbatim>\<open>_read_response\<close>.\<close>

definition status_line :: "string \<Rightarrow> bool" where
  "status_line line = startswith (u_rstrip line) status_prefix"

section \<open>Properties of the argument sanitiser\<close>

subsection \<open>The escaping transform\<close>

lemma unsafe_char_spec: "unsafe_char c \<longleftrightarrow> c \<notin> spec_safe_set"
  by (cases c)
     (simp add: unsafe_char_def word_char_def is_lower_def is_upper_def is_digit_def
                spec_safe_set_def)

lemma unsafe_findall_empty: "length (unsafe_findall s) = 0 \<longleftrightarrow> set s \<subseteq> spec_safe_set"
  by (auto simp: unsafe_findall_def filter_empty_conv unsafe_char_spec)

text \<open>
  Claim C2. A string whose characters all lie in \<^verbatim>\<open>[A-Za-z0-9@%+=:,./_-]\<close> is returned
  unchanged by \<^verbatim>\<open>_fix_unsafe\<close>; a string with at least one character outside that
  set is returned with every single quote replaced by the five characters
  \<^verbatim>\<open>'"'"'\<close> and the whole wrapped in single quotes.
\<close>

theorem fix_unsafe_spec:
  "(set s \<subseteq> spec_safe_set \<longrightarrow> fix_unsafe s = s) \<and>
   (\<not> set s \<subseteq> spec_safe_set \<longrightarrow>
      fix_unsafe s =
        [CHR 0x27]
        @ concat (map (\<lambda>c. if c = CHR 0x27 then [CHR 0x27, CHR 0x22, CHR 0x27, CHR 0x22, CHR 0x27] else [c]) s)
        @ [CHR 0x27])"
  unfolding fix_unsafe_def unsafe_findall_empty replace_char_def by simp

theorem fix_unsafe_spec_witness:
  "set ''key-1_a@b.c'' \<subseteq> spec_safe_set \<and> fix_unsafe ''key-1_a@b.c'' = ''key-1_a@b.c'' \<and>
   \<not> set [CHR ''i'', CHR ''t'', CHR 0x27, CHR ''s'', CHR '' '', CHR ''x''] \<subseteq> spec_safe_set \<and>
   fix_unsafe [CHR ''i'', CHR ''t'', CHR 0x27, CHR ''s'', CHR '' '', CHR ''x''] =
     [CHR 0x27, CHR ''i'', CHR ''t'', CHR 0x27, CHR 0x22, CHR 0x27, CHR 0x22, CHR 0x27,
      CHR ''s'', CHR '' '', CHR ''x'', CHR 0x27]"
  using fix_unsafe_spec [of "''key-1_a@b.c''"]
        fix_unsafe_spec [of "[CHR ''i'', CHR ''t'', CHR 0x27, CHR ''s'', CHR '' '', CHR ''x'']"]
  by (simp add: spec_safe_set_def)

subsection \<open>The allow-list check\<close>

text \<open>The start-up self-check of \<^verbatim>\<open>_is_allowed\<close> never fails.\<close>

lemma allowed_subset_possible: "allowed \<subseteq> possible"
  by (simp add: allowed_def possible_def allowed_opts_def all_opts_def)

lemma allowed_no_underscore: "f \<in> allowed \<Longrightarrow> find_char (CHR ''_'') f = - 1"
  by (auto simp: allowed_def allowed_opts_def)

lemma allowed_no_space: "f \<in> allowed \<Longrightarrow> find_char (CHR '' '') f = - 1"
  by (auto simp: allowed_def allowed_opts_def)

lemma is_allowed_accept:
  "f \<in> allowed \<Longrightarrow> is_allowed (Str f) = Inr (Some f)"
  by (simp add: is_allowed_def allowed_subset_possible allowed_no_underscore)

lemma is_allowed_reject:
  "f \<notin> allowed \<Longrightarrow> \<not> 0 < find_char (CHR ''_'') f \<Longrightarrow>
     is_allowed (Str f) = Inl (ProtectedOption (fix_unsafe f))"
  by (simp add: is_allowed_def allowed_subset_possible)

lemma is_allowed_underscore:
  "0 < find_char (CHR ''_'') f \<Longrightarrow> is_allowed (Str f) = Inr None"
  by (simp add: is_allowed_def allowed_subset_possible)

lemma check_accept:
  "f \<in> allowed \<Longrightarrow> check_arg_and_value is_file f None = Inr (f @ '' '', None)"
  by (simp add: check_arg_and_value_def is_allowed_accept)

lemma check_reject:
  "f \<notin> allowed \<Longrightarrow> \<not> 0 < find_char (CHR ''_'') f \<Longrightarrow>
     check_arg_and_value is_file f v = Inr ([], Some (ProtectedOption (fix_unsafe f)))"
  by (simp add: check_arg_and_value_def is_allowed_reject)

text \<open>
  Claim C1, as the code has it. For an allow-listed flag \<open>f\<close>, \<^verbatim>\<open>_sanitise(f)\<close> is \<open>f\<close>
  followed by one space, with nothing caught. For a string \<open>f\<close> outside the allow-list
  that has neither a space nor an underscore after its first character, the checker
  raises and catches ProtectedOption, \<^verbatim>\<open>_sanitise(f)\<close> is the empty string, the
  remaining arguments are processed as usual (the dropped one leaves an empty piece),
  and \<^verbatim>\<open>_sanitise_list\<close> yields nothing for it and goes on with the rest.
\<close>

theorem sanitise_flag:
  "(f \<in> allowed \<longrightarrow> sanitise is_file [Str f] = Inr (f @ '' '', [])) \<and>
   (f \<notin> allowed \<and> \<not> 0 < find_char (CHR '' '') f \<and> \<not> 0 < find_char (CHR ''_'') f \<longrightarrow>
      sanitise is_file [Str f] = Inr ([], [ProtectedOption (fix_unsafe f)]) \<and>
      sanitise_args is_file (Str f # rest) checked caught =
        sanitise_args is_file rest (checked @ [[]]) (caught @ [ProtectedOption (fix_unsafe f)]) \<and>
      sanitise_list is_file (Str f # others) =
        (case sanitise_list is_file others of
           Inl e \<Rightarrow> Inl e
         | Inr (ys, caught1) \<Rightarrow> Inr (ys, ProtectedOption (fix_unsafe f) # caught1)))"
proof (intro conjI impI)
  assume "f \<in> allowed"
  then show "sanitise is_file [Str f] = Inr (f @ '' '', [])"
    by (simp add: sanitise_def sanitise_arg_def check_accept allowed_no_space opt_list_def)
next
  assume a: "f \<notin> allowed \<and> \<not> 0 < find_char (CHR '' '') f \<and> \<not> 0 < find_char (CHR ''_'') f"
  then have chk: "check_arg_and_value is_file f None = Inr ([], Some (ProtectedOption (fix_unsafe f)))"
    by (simp add: check_reject)
  from a chk show one: "sanitise is_file [Str f] = Inr ([], [ProtectedOption (fix_unsafe f)])"
    by (simp add: sanitise_def sanitise_arg_def opt_list_def)
  from a chk show "sanitise_args is_file (Str f # rest) checked caught =
        sanitise_args is_file rest (checked @ [[]]) (caught @ [ProtectedOption (fix_unsafe f)])"
    by (simp add: sanitise_arg_def opt_list_def)
  from one show "sanitise_list is_file (Str f # others) =
        (case sanitise_list is_file others of
           Inl e \<Rightarrow> Inl e
         | Inr (ys, caught1) \<Rightarrow> Inr (ys, ProtectedOption (fix_unsafe f) # caught1))"
    by (simp split: sum.splits)
qed

theorem sanitise_flag_witness:
  "''--version'' \<in> allowed \<and>
   sanitise no_files [Str ''--version''] = Inr (''--version '', []) \<and>
   ''--bicycle'' \<notin> allowed \<and> \<not> 0 < find_char (CHR '' '') ''--bicycle''
     \<and> \<not> 0 < find_char (CHR ''_'') ''--bicycle'' \<and>
   sanitise no_files [Str ''--bicycle''] = Inr ([], [ProtectedOption ''--bicycle'']) \<and>
   sanitise_args no_files [Str ''--bicycle'', Str ''--version''] [] [] =
     Inr ([[], ''--version ''], [ProtectedOption ''--bicycle'']) \<and>
   sanitise_list no_files [Str ''--bicycle'', Str ''--version''] =
     Inr ([''--version ''], [ProtectedOption ''--bicycle''])"
proof -
  have a: "''--version'' \<in> allowed" by (simp add: allowed_def allowed_opts_def)
  have b: "''--bicycle'' \<notin> allowed" by (simp add: allowed_def allowed_opts_def)
  have u: "fix_unsafe ''--bicycle'' = ''--bicycle''"
    by (simp add: fix_unsafe_def unsafe_findall_def unsafe_char_def word_char_def
                  is_lower_def is_upper_def is_digit_def)
  have v: "sanitise_args no_files [Str ''--version''] [[]] [ProtectedOption ''--bicycle'']
             = Inr ([[], ''--version ''], [ProtectedOption ''--bicycle''])"
    using a by (simp add: sanitise_arg_def check_accept opt_list_def)
  have w: "sanitise_list no_files [Str ''--version''] = Inr ([''--version ''], [])"
    using sanitise_flag [of "''--version''" no_files "[]" "[]" "[]" "[]"] a by simp
  show ?thesis
    using sanitise_flag [of "''--version''" no_files "[]" "[]" "[]" "[]"]
          sanitise_flag [of "''--bicycle''" no_files "[Str ''--version'']" "[]" "[]" "[Str ''--version'']"]
          a b u v w
    by simp
qed

text \<open>
  The identity of claim C1 fails: the flag \<^verbatim>\<open>--version\<close> is allow-listed and
  canonical, and the result carries a trailing space.
\<close>

theorem sanitise_identity_counterexample:
  "''--version'' \<in> allowed \<and> sanitise no_files [Str ''--version''] \<noteq> Inr (''--version'', [])"
  by (simp add: sanitise_def sanitise_arg_def check_accept opt_list_def allowed_def allowed_opts_def)

text \<open>
  Claim C5 at the attribute-style names \<^verbatim>\<open>list_keys\<close> and \<^verbatim>\<open>--with_colons\<close>: the
  hyphenated names are in the allow-list, and \<^verbatim>\<open>_is_allowed\<close> returns None for both,
  so that \<^verbatim>\<open>_sanitise\<close> drops the option on the failed assertion.
\<close>

theorem is_allowed_attribute_style:
  "is_allowed (Str ''list_keys'') = Inr None \<and>
   hyphenate ''list_keys'' True \<in> allowed \<and>
   is_allowed (Str ''--with_colons'') = Inr None \<and>
   hyphenate ''--with_colons'' False \<in> allowed \<and>
   sanitise no_files [Str ''list_keys''] = Inr ([], [AssertionError])"
proof -
  have a: "is_allowed (Str ''list_keys'') = Inr None"
    by (simp add: is_allowed_underscore)
  have b: "is_allowed (Str ''--with_colons'') = Inr None"
    by (simp add: is_allowed_underscore)
  have c: "hyphenate ''list_keys'' True \<in> allowed"
    by (simp add: hyphenate_def replace_char_def allowed_def allowed_opts_def)
  have d: "hyphenate ''--with_colons'' False \<in> allowed"
    by (simp add: hyphenate_def replace_char_def allowed_def allowed_opts_def)
  have e: "sanitise no_files [Str ''list_keys''] = Inr ([], [AssertionError])"
    by (simp add: sanitise_def sanitise_arg_def check_arg_and_value_def a opt_list_def)
  from a b c d e show ?thesis by simp
qed

section \<open>Properties of the result state machines\<close>

subsection \<open>Unknown keywords\<close>

lemma verify_unknown:
  "key \<notin> set verify_keywords \<Longrightarrow>
     verify_handle_status key v self = (self, Some (UnknownStatusMessage key))"
  by (simp add: verify_keywords_def verify_handle_status_def TRUST_LEVELS_def)

lemma verify_known:
  "key \<in> set verify_keywords \<Longrightarrow>
     snd (verify_handle_status key v self) \<noteq> Some (UnknownStatusMessage key)"
proof -
  have "\<forall>k \<in> set verify_keywords.
          snd (verify_handle_status k v self) \<noteq> Some (UnknownStatusMessage k)"
    unfolding verify_keywords_def TRUST_LEVELS_def
    by (simp add: verify_handle_status_def TRUST_LEVELS_def Let_def split: list.splits)
  then show "key \<in> set verify_keywords \<Longrightarrow>
     snd (verify_handle_status key v self) \<noteq> Some (UnknownStatusMessage key)"
    by blast
qed

lemma crypt_unknown:
  "key \<notin> set crypt_keywords \<Longrightarrow>
     crypt_handle_status key v self = (self, Some (UnknownStatusMessage key))"
  by (simp add: crypt_keywords_def crypt_handle_status_def verify_unknown)

lemma crypt_known:
  "key \<in> set crypt_keywords \<Longrightarrow>
     snd (crypt_handle_status key v self) \<noteq> Some (UnknownStatusMessage key)"
proof -
  have "\<forall>k \<in> set crypt_keywords.
          snd (crypt_handle_status k v self) \<noteq> Some (UnknownStatusMessage k)"
    unfolding crypt_keywords_def verify_keywords_def TRUST_LEVELS_def
    by (simp add: crypt_handle_status_def verify_handle_status_def TRUST_LEVELS_def Let_def
             split: list.splits)
  then show "key \<in> set crypt_keywords \<Longrightarrow>
     snd (crypt_handle_status key v self) \<noteq> Some (UnknownStatusMessage key)"
    by blast
qed

lemma gen_key_unknown:
  "key \<notin> set gen_key_keywords \<Longrightarrow>
     gen_key_handle_status key v self = (self, Some (UnknownStatusMessage key))"
  by (simp add: gen_key_keywords_def gen_key_handle_status_def)

lemma gen_key_known:
  "key \<in> set gen_key_keywords \<Longrightarrow>
     snd (gen_key_handle_status key v self) \<noteq> Some (UnknownStatusMessage key)"
  by (auto simp: gen_key_keywords_def gen_key_handle_status_def split: list.splits)

lemma sign_unknown:
  "key \<notin> set sign_keywords \<Longrightarrow>
     sign_handle_status key v self = (self, Some (UnknownStatusMessage key))"
  by (simp add: sign_keywords_def sign_handle_status_def)

lemma sign_known:
  "key \<in> set sign_keywords \<Longrightarrow>
     snd (sign_handle_status key v self) \<noteq> Some (UnknownStatusMessage key)"
  by (auto simp: sign_keywords_def sign_handle_status_def split: list.splits)

lemma delete_unknown:
  "key \<notin> set delete_keywords \<Longrightarrow>
     delete_handle_status repr key v self = (self, Some (UnknownStatusMessage key))"
  by (simp add: delete_keywords_def delete_handle_status_def)

lemma delete_known:
  "key \<in> set delete_keywords \<Longrightarrow>
     snd (delete_handle_status repr key v self) \<noteq> Some (UnknownStatusMessage key)"
  by (auto simp: delete_keywords_def delete_handle_status_def)

lemma import_unknown:
  "key \<notin> set import_keywords \<Longrightarrow>
     import_handle_status items key v self = (self, Some (UnknownStatusMessage key))"
  by (simp add: import_keywords_def import_handle_status_def)

lemma set_counts_not_unknown:
  "snd (set_counts is toks self) \<noteq> Some (UnknownStatusMessage key)"
  by (induction "is" toks self rule: set_counts.induct) (auto split: option.splits)

lemma collect_reasons_not_unknown:
  "collect_reasons reason tbl acc \<noteq> Inl (UnknownStatusMessage key)"
  by (induction reason tbl acc rule: collect_reasons.induct) (auto split: option.splits)

lemma import_known:
  "key \<in> set import_keywords \<Longrightarrow>
     snd (import_handle_status items key v self) \<noteq> Some (UnknownStatusMessage key)"
proof -
  have "\<forall>k \<in> set import_keywords.
          snd (import_handle_status items k v self) \<noteq> Some (UnknownStatusMessage k)"
    unfolding import_keywords_def
    by (auto simp: import_handle_status_def Let_def set_counts_not_unknown
                   collect_reasons_not_unknown
             split: list.splits sum.splits option.splits prod.splits)
  then show "key \<in> set import_keywords \<Longrightarrow>
     snd (import_handle_status items key v self) \<noteq> Some (UnknownStatusMessage key)"
    by blast
qed

text \<open>
  Claim C3, as the code has it. For Verify, Crypt, GenKey, Sign, ImportResult and
  DeleteResult, a keyword outside the handler's keyword set raises the "Unknown status
  message" error and leaves the object unchanged, and a keyword of the set never
  raises that error. \<^verbatim>\<open>ListKeys.handle_status\<close> accepts every keyword and does nothing.
\<close>

theorem unknown_status_message:
  "(key \<notin> set verify_keywords \<longrightarrow>
      verify_handle_status key v (vs :: verify) = (vs, Some (UnknownStatusMessage key))) \<and>
   (key \<in> set verify_keywords \<longrightarrow>
      snd (verify_handle_status key v vs) \<noteq> Some (UnknownStatusMessage key)) \<and>
   (key \<notin> set crypt_keywords \<longrightarrow>
      crypt_handle_status key v cs = (cs, Some (UnknownStatusMessage key))) \<and>
   (key \<in> set crypt_keywords \<longrightarrow>
      snd (crypt_handle_status key v cs) \<noteq> Some (UnknownStatusMessage key)) \<and>
   (key \<notin> set gen_key_keywords \<longrightarrow>
      gen_key_handle_status key v gs = (gs, Some (UnknownStatusMessage key))) \<and>
   (key \<in> set gen_key_keywords \<longrightarrow>
      snd (gen_key_handle_status key v gs) \<noteq> Some (UnknownStatusMessage key)) \<and>
   (key \<notin> set sign_keywords \<longrightarrow>
      sign_handle_status key v ss = (ss, Some (UnknownStatusMessage key))) \<and>
   (key \<in> set sign_keywords \<longrightarrow>
      snd (sign_handle_status key v ss) \<noteq> Some (UnknownStatusMessage key)) \<and>
   (key \<notin> set import_keywords \<longrightarrow>
      import_handle_status items key v is = (is, Some (UnknownStatusMessage key))) \<and>
   (key \<in> set import_keywords \<longrightarrow>
      snd (import_handle_status items key v is) \<noteq> Some (UnknownStatusMessage key)) \<and>
   (key \<notin> set delete_keywords \<longrightarrow>
      delete_handle_status repr key v ds = (ds, Some (UnknownStatusMessage key))) \<and>
   (key \<in> set delete_keywords \<longrightarrow>
      snd (delete_handle_status repr key v ds) \<noteq> Some (UnknownStatusMessage key)) \<and>
   list_keys_handle_status key v ls = (ls, None)"
  using verify_unknown [of key v vs] verify_known [of key v vs]
        crypt_unknown [of key v cs] crypt_known [of key v cs]
        gen_key_unknown [of key v gs] gen_key_known [of key v gs]
        sign_unknown [of key v ss] sign_known [of key v ss]
        import_unknown [of key items v "is"] import_known [of key items v "is"]
        delete_unknown [of key repr v ds] delete_known [of key repr v ds]
  by (simp add: list_keys_handle_status_def)

theorem unknown_status_message_witness:
  "''TYRANNOSAURUS'' \<notin> set verify_keywords \<and> ''TYRANNOSAURUS'' \<notin> set crypt_keywords \<and>
   ''TYRANNOSAURUS'' \<notin> set gen_key_keywords \<and> ''TYRANNOSAURUS'' \<notin> set sign_keywords \<and>
   ''TYRANNOSAURUS'' \<notin> set import_keywords \<and> ''TYRANNOSAURUS'' \<notin> set delete_keywords \<and>
   verify_handle_status ''TYRANNOSAURUS'' ''1 2'' verify_init =
     (verify_init, Some (UnknownStatusMessage ''TYRANNOSAURUS'')) \<and>
   crypt_handle_status ''TYRANNOSAURUS'' ''1 2'' crypt_init =
     (crypt_init, Some (UnknownStatusMessage ''TYRANNOSAURUS'')) \<and>
   gen_key_handle_status ''TYRANNOSAURUS'' ''1 2'' gen_key_init =
     (gen_key_init, Some (UnknownStatusMessage ''TYRANNOSAURUS'')) \<and>
   sign_handle_status ''TYRANNOSAURUS'' ''1 2'' sign_init =
     (sign_init, Some (UnknownStatusMessage ''TYRANNOSAURUS'')) \<and>
   import_handle_status ok_reason ''TYRANNOSAURUS'' ''1 2'' import_init =
     (import_init, Some (UnknownStatusMessage ''TYRANNOSAURUS'')) \<and>
   delete_handle_status id ''TYRANNOSAURUS'' ''1 2'' delete_init =
     (delete_init, Some (UnknownStatusMessage ''TYRANNOSAURUS'')) \<and>
   ''GOODSIG'' \<in> set verify_keywords \<and>
   snd (verify_handle_status ''GOODSIG'' ''1 2'' verify_init) \<noteq>
     Some (UnknownStatusMessage ''GOODSIG'') \<and>
   ''GOODSIG'' \<in> set crypt_keywords \<and>
   snd (crypt_handle_status ''GOODSIG'' ''1 2'' crypt_init) \<noteq>
     Some (UnknownStatusMessage ''GOODSIG'') \<and>
   ''NODATA'' \<in> set gen_key_keywords \<and>
   snd (gen_key_handle_status ''NODATA'' ''1 2'' gen_key_init) \<noteq>
     Some (UnknownStatusMessage ''NODATA'') \<and>
   ''NODATA'' \<in> set sign_keywords \<and>
   snd (sign_handle_status ''NODATA'' ''1 2'' sign_init) \<noteq>
     Some (UnknownStatusMessage ''NODATA'') \<and>
   ''NODATA'' \<in> set import_keywords \<and>
   snd (import_handle_status ok_reason ''NODATA'' ''1 2'' import_init) \<noteq>
     Some (UnknownStatusMessage ''NODATA'') \<and>
   ''DELETE_PROBLEM'' \<in> set delete_keywords \<and>
   snd (delete_handle_status id ''DELETE_PROBLEM'' ''1 2'' delete_init) \<noteq>
     Some (UnknownStatusMessage ''DELETE_PROBLEM'')"
proof -
  have out: "''TYRANNOSAURUS'' \<notin> set verify_keywords" "''TYRANNOSAURUS'' \<notin> set crypt_keywords"
    "''TYRANNOSAURUS'' \<notin> set gen_key_keywords" "''TYRANNOSAURUS'' \<notin> set sign_keywords"
    "''TYRANNOSAURUS'' \<notin> set import_keywords" "''TYRANNOSAURUS'' \<notin> set delete_keywords"
    by (simp_all add: verify_keywords_def crypt_keywords_def gen_key_keywords_def
          sign_keywords_def import_keywords_def delete_keywords_def TRUST_LEVELS_def)
  have inn: "''GOODSIG'' \<in> set verify_keywords" "''GOODSIG'' \<in> set crypt_keywords"
    "''NODATA'' \<in> set gen_key_keywords" "''NODATA'' \<in> set sign_keywords"
    "''NODATA'' \<in> set import_keywords" "''DELETE_PROBLEM'' \<in> set delete_keywords"
    by (simp_all add: verify_keywords_def crypt_keywords_def gen_key_keywords_def
          sign_keywords_def import_keywords_def delete_keywords_def TRUST_LEVELS_def)
  show ?thesis
    using out inn
      unknown_status_message [of "''TYRANNOSAURUS''" "''1 2''" verify_init crypt_init
        gen_key_init sign_init ok_reason import_init id delete_init]
      unknown_status_message [of "''GOODSIG''" "''1 2''" verify_init crypt_init
        gen_key_init sign_init ok_reason import_init id delete_init]
      unknown_status_message [of "''NODATA''" "''1 2''" verify_init crypt_init
        gen_key_init sign_init ok_reason import_init id delete_init]
      unknown_status_message [of "''DELETE_PROBLEM''" "''1 2''" verify_init crypt_init
        gen_key_init sign_init ok_reason import_init id delete_init]
    by simp
qed

text \<open>
  Claim C3 fails for ListKeys: its handler returns normally for a keyword it knows
  nothing about.
\<close>

theorem list_keys_unknown_counterexample:
  "snd (list_keys_handle_status ''TYRANNOSAURUS'' ''1 2'' list_keys_init) \<noteq>
     Some (UnknownStatusMessage ''TYRANNOSAURUS'')"
  by (simp add: list_keys_handle_status_def)

subsection \<open>Expiry events of \<^verbatim>\<open>Verify\<close>\<close>

text \<open>
  Claim C7, as the code has it. A KEYEXPIRED or SIGEXPIRED event leaves every field of a Verify result
  unchanged. An EXPKEYSIG or REVKEYSIG event whose value has a first token sets
  \<^verbatim>\<open>valid\<close> to False, \<^verbatim>\<open>key_id\<close> to that token and \<^verbatim>\<open>status\<close> to the lower-cased
  keyword split after its third letter; when the value has no token the handler sets
  \<^verbatim>\<open>valid\<close> to False and raises IndexError.
\<close>

theorem verify_expiry_events:
  "(key \<in> {''KEYEXPIRED'', ''SIGEXPIRED''} \<longrightarrow>
      verify_handle_status key v self = (self, None)) \<and>
   (key \<in> {''EXPKEYSIG'', ''REVKEYSIG''} \<and> u_split v = k # ks \<longrightarrow>
      verify_handle_status key v self =
        (self\<lparr>valid := False, key_id := Some k,
              status := Some (if key = ''EXPKEYSIG'' then ''exp keysig'' else ''rev keysig'')\<rparr>,
         None)) \<and>
   (key \<in> {''EXPKEYSIG'', ''REVKEYSIG''} \<and> u_split v = [] \<longrightarrow>
      verify_handle_status key v self = (self\<lparr>valid := False\<rparr>, Some IndexError))"
proof (intro conjI impI)
  assume "key \<in> {''KEYEXPIRED'', ''SIGEXPIRED''}"
  then consider "key = ''KEYEXPIRED''" | "key = ''SIGEXPIRED''" by blast
  then show "verify_handle_status key v self = (self, None)"
    by cases (simp_all add: verify_handle_status_def TRUST_LEVELS_def)
next
  assume a: "key \<in> {''EXPKEYSIG'', ''REVKEYSIG''} \<and> u_split v = k # ks"
  then consider "key = ''EXPKEYSIG''" | "key = ''REVKEYSIG''" by blast
  then show "verify_handle_status key v self =
        (self\<lparr>valid := False, key_id := Some k,
              status := Some (if key = ''EXPKEYSIG'' then ''exp keysig'' else ''rev keysig'')\<rparr>,
         None)"
    using a
    by cases (simp_all add: verify_handle_status_def TRUST_LEVELS_def py_lower_def lower_char_def)
next
  assume a: "key \<in> {''EXPKEYSIG'', ''REVKEYSIG''} \<and> u_split v = []"
  then consider "key = ''EXPKEYSIG''" | "key = ''REVKEYSIG''" by blast
  then show "verify_handle_status key v self = (self\<lparr>valid := False\<rparr>, Some IndexError)"
    using a
    by cases (simp_all add: verify_handle_status_def TRUST_LEVELS_def)
qed

theorem verify_expiry_events_witness:
  "''KEYEXPIRED'' \<in> {''KEYEXPIRED'', ''SIGEXPIRED''} \<and>
   verify_handle_status ''KEYEXPIRED'' ''ABCD 1'' (verify_init\<lparr>valid := True\<rparr>) =
     (verify_init\<lparr>valid := True\<rparr>, None) \<and>
   ''REVKEYSIG'' \<in> {''EXPKEYSIG'', ''REVKEYSIG''} \<and>
   u_split ''ABCD Alice'' = [''ABCD'', ''Alice''] \<and>
   verify_handle_status ''REVKEYSIG'' ''ABCD Alice'' (verify_init\<lparr>valid := True\<rparr>) =
     (verify_init\<lparr>valid := False, key_id := Some ''ABCD'', status := Some ''rev keysig''\<rparr>,
      None) \<and>
   u_split '' '' = [] \<and>
   verify_handle_status ''EXPKEYSIG'' '' '' (verify_init\<lparr>valid := True\<rparr>) =
     (verify_init\<lparr>valid := False\<rparr>, Some IndexError)"
proof -
  have s1: "u_split ''ABCD Alice'' = [''ABCD'', ''Alice'']"
    and s2: "u_split '' '' = []"
    by (simp_all add: u_split_def is_uspace_def is_space_def)
  show ?thesis
    using s1 s2
      verify_expiry_events [of "''KEYEXPIRED''" "''ABCD 1''" "verify_init\<lparr>valid := True\<rparr>"]
      verify_expiry_events [of "''REVKEYSIG''" "''ABCD Alice''" "verify_init\<lparr>valid := True\<rparr>"
         "''ABCD''" "[''Alice'']"]
      verify_expiry_events [of "''EXPKEYSIG''" "'' ''" "verify_init\<lparr>valid := True\<rparr>"]
    by (simp add: verify_init_def)
qed

text \<open>
  Claim C7 fails for an EXPKEYSIG event with an empty value, which is what
  \<^verbatim>\<open>_read_response\<close> passes for the line \<^verbatim>\<open>[GNUPG:] EXPKEYSIG\<close>: the handler raises
  IndexError, \<^verbatim>\<open>key_id\<close> keeps its old value and \<^verbatim>\<open>status\<close> is not set.
\<close>

theorem expkeysig_no_token_counterexample:
  "snd (verify_handle_status ''EXPKEYSIG'' [] (verify_init\<lparr>key_id := Some ''OLD''\<rparr>)) =
     Some IndexError \<and>
   key_id (fst (verify_handle_status ''EXPKEYSIG'' [] (verify_init\<lparr>key_id := Some ''OLD''\<rparr>))) =
     Some ''OLD'' \<and>
   status (fst (verify_handle_status ''EXPKEYSIG'' [] (verify_init\<lparr>key_id := Some ''OLD''\<rparr>))) =
     None"
  by (simp add: verify_handle_status_def TRUST_LEVELS_def u_split_def verify_init_def)

section \<open>Properties of the status-line parser\<close>

lemma read_loop_calls_mono:
  "c \<in> set calls \<Longrightarrow> c \<in> set (rr_calls (read_loop h stream result calls lines))"
  by (induction stream arbitrary: result calls lines)
     (auto simp: Let_def split: list.splits option.splits prod.splits)

lemma read_loop_skip:
  "line = [] \<Longrightarrow>
     read_loop h (line # stream) result calls lines =
       \<lparr>rr_result = result, rr_calls = calls, rr_lines = lines,
        rr_stderr = Some (concat lines), rr_raised = None\<rparr>"
  "line \<noteq> [] \<Longrightarrow> take 9 (u_rstrip line) \<noteq> status_prefix \<Longrightarrow>
     read_loop h (line # stream) result calls lines =
       read_loop h stream result calls (lines @ [line])"
  by simp_all

lemma read_loop_dispatch:
  assumes "line \<noteq> []" and "take 9 (u_rstrip line) = status_prefix"
    and "u_split1 (drop 9 (u_rstrip line)) = keyword # rest"
    and "val = (case rest of [] \<Rightarrow> [] | x # xs \<Rightarrow> x)"
    and "h keyword val result = (r1, e)"
  shows "read_loop h (line # stream) result calls lines =
       (case e of
          Some err \<Rightarrow> \<lparr>rr_result = r1, rr_calls = calls @ [(keyword, val)],
                        rr_lines = lines @ [line], rr_stderr = None, rr_raised = Some err\<rparr>
        | None \<Rightarrow> read_loop h stream r1 (calls @ [(keyword, val)]) (lines @ [line]))"
  using assms by (cases rest; cases e) (simp_all add: Let_def)

declare read_loop.simps(2) [simp del]

lemma rstrip_decomp: "line = u_rstrip line @ rev (takeWhile is_uspace (rev line))"
proof -
  have "rev (takeWhile is_uspace (rev line) @ dropWhile is_uspace (rev line)) = rev (rev line)"
    by (simp only: takeWhile_dropWhile_id)
  then have "rev (dropWhile is_uspace (rev line)) @ rev (takeWhile is_uspace (rev line)) = line"
    by (simp only: rev_append rev_rev_ident)
  then show ?thesis by (simp only: u_rstrip_def)
qed

lemma rstrip_last: "u_rstrip line \<noteq> [] \<Longrightarrow> \<not> is_uspace (last (u_rstrip line))"
  by (simp add: u_rstrip_def last_rev hd_dropWhile)

lemma status_prefix_props:
  "length status_prefix = 9" "is_uspace (last status_prefix)" "status_prefix \<noteq> []"
  by (simp_all add: status_prefix_def is_uspace_def is_space_def)

lemma startswith_prefix: "startswith s status_prefix = (take 9 s = status_prefix)"
  by (simp add: startswith_def status_prefix_props)

lemma no_prefix_rstrip:
  "\<not> startswith line status_prefix \<Longrightarrow> \<not> startswith (u_rstrip line) status_prefix"
proof
  assume n: "\<not> startswith line status_prefix" and s: "startswith (u_rstrip line) status_prefix"
  from s have t: "take 9 (u_rstrip line) = status_prefix" by (simp add: startswith_prefix)
  then have "length (take 9 (u_rstrip line)) = 9" by (simp add: status_prefix_props)
  then have len: "9 \<le> length (u_rstrip line)" by simp
  have "take 9 line = take 9 (u_rstrip line @ rev (takeWhile is_uspace (rev line)))"
    using rstrip_decomp [of line] by simp
  also have "\<dots> = take 9 (u_rstrip line)" using len by simp
  finally have "startswith line status_prefix" using t by (simp add: startswith_prefix)
  with n show False by simp
qed

lemma status_line_body:
  assumes "take 9 (u_rstrip line) = status_prefix"
  shows "dropWhile is_uspace (drop 9 (u_rstrip line)) \<noteq> []"
proof -
  let ?r = "u_rstrip line"
  have ne: "?r \<noteq> []" using assms status_prefix_props(3) by auto
  have split: "status_prefix @ drop 9 ?r = ?r"
    using assms append_take_drop_id [of 9 ?r] by simp
  have d: "drop 9 ?r \<noteq> []"
  proof
    assume e: "drop 9 ?r = []"
    have "last ?r = last (status_prefix @ drop 9 ?r)" by (simp only: split)
    also have "\<dots> = last status_prefix" by (simp only: e append_Nil2)
    finally have "is_uspace (last ?r)" by (simp only: status_prefix_props(2))
    with rstrip_last [OF ne] show False by blast
  qed
  have "last ?r = last (status_prefix @ drop 9 ?r)" by (simp only: split)
  also have "\<dots> = last (drop 9 ?r)" using d by (rule last_appendR)
  finally have "\<not> is_uspace (last (drop 9 ?r))" using rstrip_last [OF ne] by simp
  moreover have "last (drop 9 ?r) \<in> set (drop 9 ?r)" using d by (rule last_in_set)
  ultimately have "\<exists>c \<in> set (drop 9 ?r). \<not> is_uspace c" by blast
  then show ?thesis by (simp only: dropWhile_eq_Nil_conv) blast
qed

lemma status_line_split:
  assumes "take 9 (u_rstrip line) = status_prefix"
  shows "\<exists>rest. u_split1 (drop 9 (u_rstrip line)) = fst (spec_event line) # rest \<and>
           snd (spec_event line) = (case rest of [] \<Rightarrow> [] | x # xs \<Rightarrow> x) \<and>
           fst (spec_event line) \<noteq> []"
proof -
  define b where "b = dropWhile is_uspace (drop 9 (u_rstrip line))"
  define k where "k = takeWhile (\<lambda>c. \<not> is_uspace c) b"
  define r where "r = dropWhile is_uspace (dropWhile (\<lambda>c. \<not> is_uspace c) b)"
  have b: "b \<noteq> []" unfolding b_def using status_line_body [OF assms] .
  then have "\<not> is_uspace (hd b)" unfolding b_def by (simp add: hd_dropWhile)
  with b have k: "k \<noteq> []" unfolding k_def by (cases b) auto
  have ev: "spec_event line = (k, r)"
    by (simp add: spec_event_def Let_def status_prefix_props(1) b_def k_def r_def)
  have sp: "u_split1 (drop 9 (u_rstrip line)) = (if r = [] then [k] else [k, r])"
    using b by (simp add: u_split1_def Let_def b_def [symmetric] k_def [symmetric] r_def [symmetric])
  show ?thesis
  proof (cases "r = []")
    case True
    with sp ev k show ?thesis by simp
  next
    case False
    with sp ev k show ?thesis by simp
  qed
qed

lemma spec_dispatch_Cons:
  "spec_dispatch h (p # evs) result calls =
     (case h (fst p) (snd p) result of
        (r1, Some e) \<Rightarrow> (r1, calls @ [p], Some e)
      | (r1, None) \<Rightarrow> spec_dispatch h evs r1 (calls @ [p]))"
  by (cases p) (simp split: prod.splits option.splits)

lemma read_loop_spec:
  "(rr_result (read_loop h stream result calls lines),
    rr_calls (read_loop h stream result calls lines),
    rr_raised (read_loop h stream result calls lines)) =
     spec_dispatch h
       (map spec_event (filter status_line (takeWhile (\<lambda>l. l \<noteq> []) stream))) result calls \<and>
   (rr_raised (read_loop h stream result calls lines) = None \<longrightarrow>
      rr_lines (read_loop h stream result calls lines) =
        lines @ takeWhile (\<lambda>l. l \<noteq> []) stream \<and>
      rr_stderr (read_loop h stream result calls lines) =
        Some (concat (lines @ takeWhile (\<lambda>l. l \<noteq> []) stream))) \<and>
   (rr_raised (read_loop h stream result calls lines) \<noteq> None \<longrightarrow>
      rr_stderr (read_loop h stream result calls lines) = None \<and>
      (\<exists>n < length (takeWhile (\<lambda>l. l \<noteq> []) stream).
         rr_lines (read_loop h stream result calls lines) =
           lines @ take (Suc n) (takeWhile (\<lambda>l. l \<noteq> []) stream) \<and>
         status_line (takeWhile (\<lambda>l. l \<noteq> []) stream ! n) \<and>
         rr_calls (read_loop h stream result calls lines) =
           calls @ map spec_event
             (filter status_line (take (Suc n) (takeWhile (\<lambda>l. l \<noteq> []) stream)))))"
proof (induction stream arbitrary: result calls lines)
  case Nil
  show ?case by simp
next
  case (Cons line stream)
  define tw where "tw = (\<lambda>s :: string list. takeWhile (\<lambda>l. l \<noteq> []) s)"
  define ev where "ev = (\<lambda>s. map spec_event (filter status_line (tw s)))"
  define P where "P = (\<lambda>(R :: 'a response) (s :: string list) (r :: 'a) c l.
      (rr_result R, rr_calls R, rr_raised R) = spec_dispatch h (ev s) r c \<and>
      (rr_raised R = None \<longrightarrow>
         rr_lines R = l @ tw s \<and> rr_stderr R = Some (concat (l @ tw s))) \<and>
      (rr_raised R \<noteq> None \<longrightarrow>
         rr_stderr R = None \<and>
         (\<exists>n < length (tw s).
            rr_lines R = l @ take (Suc n) (tw s) \<and> status_line (tw s ! n) \<and>
            rr_calls R = c @ map spec_event (filter status_line (take (Suc n) (tw s))))))"
  have IH: "P (read_loop h stream r c l) stream r c l" for r c l
    unfolding P_def ev_def tw_def by (rule Cons.IH)
  have goal: "P (read_loop h (line # stream) result calls lines) (line # stream) result calls lines"
  proof (cases "line = []")
    case True
    then show ?thesis by (simp add: P_def ev_def tw_def read_loop_skip)
  next
    case False
    note ne = this
    then have tw: "tw (line # stream) = line # tw stream" by (simp add: tw_def)
    show ?thesis
    proof (cases "status_line line")
      case False
      then have "take 9 (u_rstrip line) \<noteq> status_prefix"
        by (simp add: status_line_def startswith_prefix)
      with ne have eq: "read_loop h (line # stream) result calls lines =
                     read_loop h stream result calls (lines @ [line])"
        by (simp add: read_loop_skip)
      have ev: "ev (line # stream) = ev stream"
        using False by (simp add: ev_def tw)
      from IH [of result calls "lines @ [line]"]
      have a: "(rr_result (read_loop h stream result calls (lines @ [line])),
                rr_calls (read_loop h stream result calls (lines @ [line])),
                rr_raised (read_loop h stream result calls (lines @ [line]))) =
                 spec_dispatch h (ev stream) result calls"
        and b: "rr_raised (read_loop h stream result calls (lines @ [line])) = None \<longrightarrow>
           rr_lines (read_loop h stream result calls (lines @ [line])) =
             (lines @ [line]) @ tw stream \<and>
           rr_stderr (read_loop h stream result calls (lines @ [line])) =
             Some (concat ((lines @ [line]) @ tw stream))"
        and c: "rr_raised (read_loop h stream result calls (lines @ [line])) \<noteq> None \<longrightarrow>
           rr_stderr (read_loop h stream result calls (lines @ [line])) = None \<and>
           (\<exists>n < length (tw stream).
              rr_lines (read_loop h stream result calls (lines @ [line])) =
                (lines @ [line]) @ take (Suc n) (tw stream) \<and>
              status_line (tw stream ! n) \<and>
              rr_calls (read_loop h stream result calls (lines @ [line])) =
                calls @ map spec_event (filter status_line (take (Suc n) (tw stream))))"
        unfolding P_def by blast+
      have c': "rr_raised (read_loop h stream result calls (lines @ [line])) \<noteq> None \<longrightarrow>
           rr_stderr (read_loop h stream result calls (lines @ [line])) = None \<and>
           (\<exists>n < length (tw (line # stream)).
              rr_lines (read_loop h stream result calls (lines @ [line])) =
                lines @ take (Suc n) (tw (line # stream)) \<and>
              status_line (tw (line # stream) ! n) \<and>
              rr_calls (read_loop h stream result calls (lines @ [line])) =
                calls @ map spec_event
                  (filter status_line (take (Suc n) (tw (line # stream)))))"
      proof
        assume r: "rr_raised (read_loop h stream result calls (lines @ [line])) \<noteq> None"
        with c obtain n where n: "n < length (tw stream)"
          "rr_lines (read_loop h stream result calls (lines @ [line])) =
                (lines @ [line]) @ take (Suc n) (tw stream)"
          "status_line (tw stream ! n)"
          "rr_calls (read_loop h stream result calls (lines @ [line])) =
                calls @ map spec_event (filter status_line (take (Suc n) (tw stream)))"
          by blast
        have "Suc n < length (tw (line # stream)) \<and>
              rr_lines (read_loop h stream result calls (lines @ [line])) =
                lines @ take (Suc (Suc n)) (tw (line # stream)) \<and>
              status_line (tw (line # stream) ! Suc n) \<and>
              rr_calls (read_loop h stream result calls (lines @ [line])) =
                calls @ map spec_event
                  (filter status_line (take (Suc (Suc n)) (tw (line # stream))))"
          using n False by (simp add: tw)
        then have "\<exists>n < length (tw (line # stream)).
              rr_lines (read_loop h stream result calls (lines @ [line])) =
                lines @ take (Suc n) (tw (line # stream)) \<and>
              status_line (tw (line # stream) ! n) \<and>
              rr_calls (read_loop h stream result calls (lines @ [line])) =
                calls @ map spec_event
                  (filter status_line (take (Suc n) (tw (line # stream))))"
          by (rule exI [of _ "Suc n"])
        with c r show "rr_stderr (read_loop h stream result calls (lines @ [line])) = None \<and>
           (\<exists>n < length (tw (line # stream)).
              rr_lines (read_loop h stream result calls (lines @ [line])) =
                lines @ take (Suc n) (tw (line # stream)) \<and>
              status_line (tw (line # stream) ! n) \<and>
              rr_calls (read_loop h stream result calls (lines @ [line])) =
                calls @ map spec_event
                  (filter status_line (take (Suc n) (tw (line # stream)))))"
          by blast
      qed
      have b': "rr_raised (read_loop h stream result calls (lines @ [line])) = None \<longrightarrow>
           rr_lines (read_loop h stream result calls (lines @ [line])) =
             lines @ tw (line # stream) \<and>
           rr_stderr (read_loop h stream result calls (lines @ [line])) =
             Some (concat (lines @ tw (line # stream)))"
        using b by (simp add: tw)
      show ?thesis
        unfolding P_def eq ev using a b' c' by (intro conjI)
    next
      case True
      then have pre: "take 9 (u_rstrip line) = status_prefix"
        by (simp add: status_line_def startswith_prefix)
      from status_line_split [OF pre] obtain rest where
        L: "u_split1 (drop 9 (u_rstrip line)) = fst (spec_event line) # rest" and
        V: "snd (spec_event line) = (case rest of [] \<Rightarrow> [] | x # xs \<Rightarrow> x)"
        by (elim exE conjE)
      obtain r1 e where h: "h (fst (spec_event line)) (snd (spec_event line)) result = (r1, e)"
        by (rule prod.exhaust)
      have unfold: "read_loop h (line # stream) result calls lines =
         (case e of
            Some err \<Rightarrow> \<lparr>rr_result = r1, rr_calls = calls @ [spec_event line],
                          rr_lines = lines @ [line], rr_stderr = None, rr_raised = Some err\<rparr>
          | None \<Rightarrow> read_loop h stream r1 (calls @ [spec_event line]) (lines @ [line]))"
        using read_loop_dispatch [where h = h, OF ne pre L V h, of stream calls lines]
        by (simp only: prod.collapse)
      have ev: "ev (line # stream) = spec_event line # ev stream"
        using True by (simp add: ev_def tw)
      show ?thesis
      proof (cases e)
        case (Some err)
        have eq: "read_loop h (line # stream) result calls lines =
            \<lparr>rr_result = r1, rr_calls = calls @ [spec_event line],
             rr_lines = lines @ [line], rr_stderr = None, rr_raised = Some err\<rparr>"
          unfolding unfold Some by simp
        have d: "spec_dispatch h (ev (line # stream)) result calls =
                  (r1, calls @ [spec_event line], Some err)"
          unfolding ev by (simp add: spec_dispatch_Cons h Some)
        have "0 < length (tw (line # stream)) \<and>
              lines @ [line] = lines @ take (Suc 0) (tw (line # stream)) \<and>
              status_line (tw (line # stream) ! 0) \<and>
              calls @ [spec_event line] =
                calls @ map spec_event (filter status_line (take (Suc 0) (tw (line # stream))))"
          using True by (simp add: tw)
        then have "\<exists>n < length (tw (line # stream)).
              lines @ [line] = lines @ take (Suc n) (tw (line # stream)) \<and>
              status_line (tw (line # stream) ! n) \<and>
              calls @ [spec_event line] =
                calls @ map spec_event (filter status_line (take (Suc n) (tw (line # stream))))"
          by (rule exI [of _ 0])
        with d show ?thesis unfolding P_def eq by simp
      next
        case None
        have eq: "read_loop h (line # stream) result calls lines =
            read_loop h stream r1 (calls @ [spec_event line]) (lines @ [line])"
          unfolding unfold None by simp
        have d: "spec_dispatch h (ev (line # stream)) result calls =
                  spec_dispatch h (ev stream) r1 (calls @ [spec_event line])"
          unfolding ev by (simp add: spec_dispatch_Cons h None)
        let ?R = "read_loop h stream r1 (calls @ [spec_event line]) (lines @ [line])"
        from IH [of r1 "calls @ [spec_event line]" "lines @ [line]"]
        have a: "(rr_result ?R, rr_calls ?R, rr_raised ?R) =
                 spec_dispatch h (ev stream) r1 (calls @ [spec_event line])"
          and b: "rr_raised ?R = None \<longrightarrow>
             rr_lines ?R = (lines @ [line]) @ tw stream \<and>
             rr_stderr ?R = Some (concat ((lines @ [line]) @ tw stream))"
          and c: "rr_raised ?R \<noteq> None \<longrightarrow>
             rr_stderr ?R = None \<and>
             (\<exists>n < length (tw stream).
                rr_lines ?R = (lines @ [line]) @ take (Suc n) (tw stream) \<and>
                status_line (tw stream ! n) \<and>
                rr_calls ?R = (calls @ [spec_event line]) @
                  map spec_event (filter status_line (take (Suc n) (tw stream))))"
          unfolding P_def by blast+
        have b': "rr_raised ?R = None \<longrightarrow>
             rr_lines ?R = lines @ tw (line # stream) \<and>
             rr_stderr ?R = Some (concat (lines @ tw (line # stream)))"
          using b by (simp add: tw)
        have c': "rr_raised ?R \<noteq> None \<longrightarrow>
             rr_stderr ?R = None \<and>
             (\<exists>n < length (tw (line # stream)).
                rr_lines ?R = lines @ take (Suc n) (tw (line # stream)) \<and>
                status_line (tw (line # stream) ! n) \<and>
                rr_calls ?R = calls @
                  map spec_event (filter status_line (take (Suc n) (tw (line # stream)))))"
        proof
          assume r: "rr_raised ?R \<noteq> None"
          with c obtain n where n: "n < length (tw stream)"
            "rr_lines ?R = (lines @ [line]) @ take (Suc n) (tw stream)"
            "status_line (tw stream ! n)"
            "rr_calls ?R = (calls @ [spec_event line]) @
                  map spec_event (filter status_line (take (Suc n) (tw stream)))"
            by blast
          have "Suc n < length (tw (line # stream)) \<and>
                rr_lines ?R = lines @ take (Suc (Suc n)) (tw (line # stream)) \<and>
                status_line (tw (line # stream) ! Suc n) \<and>
                rr_calls ?R = calls @
                  map spec_event (filter status_line (take (Suc (Suc n)) (tw (line # stream))))"
            using n True by (simp add: tw)
          then have "\<exists>n < length (tw (line # stream)).
                rr_lines ?R = lines @ take (Suc n) (tw (line # stream)) \<and>
                status_line (tw (line # stream) ! n) \<and>
                rr_calls ?R = calls @
                  map spec_event (filter status_line (take (Suc n) (tw (line # stream))))"
            by (rule exI [of _ "Suc n"])
          with c r show "rr_stderr ?R = None \<and>
             (\<exists>n < length (tw (line # stream)).
                rr_lines ?R = lines @ take (Suc n) (tw (line # stream)) \<and>
                status_line (tw (line # stream) ! n) \<and>
                rr_calls ?R = calls @
                  map spec_event (filter status_line (take (Suc n) (tw (line # stream)))))"
            by blast
        qed
        show ?thesis
          unfolding P_def eq d using a b' c' by (intro conjI)
      qed
    qed
  qed
  then show ?case unfolding P_def ev_def tw_def .
qed

text \<open>
  Claim C6, as the code has it. The prefix test is made on the line with its trailing
  whitespace removed. A line that does not begin with \<^verbatim>\<open>[GNUPG:] \<close> fails that test too;
  a line that passes it has a non-empty keyword. \<^verbatim>\<open>_read_response\<close> does what the
  dispatch of the specification does on the events of the lines that pass the test,
  taken in order up to the end of the stream: the result object, the handler calls
  and the exception are the same. When nothing raises, every line read is retained
  and \<^verbatim>\<open>result.stderr\<close> is their concatenation. When a call raises, \<^verbatim>\<open>result.stderr\<close>
  is not assigned, the lines retained are the lines up to the one whose call raised,
  and the calls made are the events of the lines among them that pass the test.
\<close>

theorem read_response_events:
  "(\<not> startswith line status_prefix \<longrightarrow> \<not> status_line line) \<and>
   (status_line line \<longrightarrow> fst (spec_event line) \<noteq> []) \<and>
   (rr_result (read_response h stream result),
    rr_calls (read_response h stream result),
    rr_raised (read_response h stream result)) =
     spec_dispatch h
       (map spec_event (filter status_line (takeWhile (\<lambda>l. l \<noteq> []) stream))) result [] \<and>
   (rr_raised (read_response h stream result) = None \<longrightarrow>
      rr_lines (read_response h stream result) = takeWhile (\<lambda>l. l \<noteq> []) stream \<and>
      rr_stderr (read_response h stream result) =
        Some (concat (takeWhile (\<lambda>l. l \<noteq> []) stream))) \<and>
   (rr_raised (read_response h stream result) \<noteq> None \<longrightarrow>
      rr_stderr (read_response h stream result) = None \<and>
      (\<exists>n < length (takeWhile (\<lambda>l. l \<noteq> []) stream).
         rr_lines (read_response h stream result) =
           take (Suc n) (takeWhile (\<lambda>l. l \<noteq> []) stream) \<and>
         status_line (takeWhile (\<lambda>l. l \<noteq> []) stream ! n) \<and>
         rr_calls (read_response h stream result) =
           map spec_event
             (filter status_line (take (Suc n) (takeWhile (\<lambda>l. l \<noteq> []) stream)))))"
proof -
  have A: "\<not> startswith line status_prefix \<longrightarrow> \<not> status_line line"
    using no_prefix_rstrip [of line] by (simp add: status_line_def)
  have B: "status_line line \<longrightarrow> fst (spec_event line) \<noteq> []"
    using status_line_split [of line] by (auto simp: status_line_def startswith_prefix)
  have C: "(rr_result (read_response h stream result),
    rr_calls (read_response h stream result),
    rr_raised (read_response h stream result)) =
     spec_dispatch h
       (map spec_event (filter status_line (takeWhile (\<lambda>l. l \<noteq> []) stream))) result [] \<and>
   (rr_raised (read_response h stream result) = None \<longrightarrow>
      rr_lines (read_response h stream result) = takeWhile (\<lambda>l. l \<noteq> []) stream \<and>
      rr_stderr (read_response h stream result) =
        Some (concat (takeWhile (\<lambda>l. l \<noteq> []) stream))) \<and>
   (rr_raised (read_response h stream result) \<noteq> None \<longrightarrow>
      rr_stderr (read_response h stream result) = None \<and>
      (\<exists>n < length (takeWhile (\<lambda>l. l \<noteq> []) stream).
         rr_lines (read_response h stream result) =
           take (Suc n) (takeWhile (\<lambda>l. l \<noteq> []) stream) \<and>
         status_line (takeWhile (\<lambda>l. l \<noteq> []) stream ! n) \<and>
         rr_calls (read_response h stream result) =
           map spec_event
             (filter status_line (take (Suc n) (takeWhile (\<lambda>l. l \<noteq> []) stream)))))"
    using read_loop_spec [of h stream result "[]" "[]"]
    unfolding read_response_def append_Nil .
  from A B C show ?thesis by (intro conjI) blast+
qed

theorem read_response_events_witness:
  "\<not> startswith (''gpg: noise'' @ [CHR 0x0A]) status_prefix \<and>
   \<not> status_line (''gpg: noise'' @ [CHR 0x0A]) \<and>
   status_line (''[GNUPG:] GOODSIG ABCD  Alice B '' @ [CHR 0x0A]) \<and>
   fst (spec_event (''[GNUPG:] GOODSIG ABCD  Alice B '' @ [CHR 0x0A])) \<noteq> [] \<and>
   rr_raised (read_response crypt_handle_status
      [''gpg: noise'' @ [CHR 0x0A], ''[GNUPG:] GOODSIG ABCD  Alice B '' @ [CHR 0x0A],
       ''[GNUPG:] DECRYPTION_OKAY'' @ [CHR 0x0A]] crypt_init) = None \<and>
   rr_calls (read_response crypt_handle_status
      [''gpg: noise'' @ [CHR 0x0A], ''[GNUPG:] GOODSIG ABCD  Alice B '' @ [CHR 0x0A],
       ''[GNUPG:] DECRYPTION_OKAY'' @ [CHR 0x0A]] crypt_init) =
     [(''GOODSIG'', ''ABCD  Alice B''), (''DECRYPTION_OKAY'', [])] \<and>
   rr_result (read_response crypt_handle_status
      [''gpg: noise'' @ [CHR 0x0A], ''[GNUPG:] GOODSIG ABCD  Alice B '' @ [CHR 0x0A],
       ''[GNUPG:] DECRYPTION_OKAY'' @ [CHR 0x0A]] crypt_init) =
     crypt_init\<lparr>valid := True, key_id := Some ''ABCD'', username := Some ''Alice B'',
       status := Some ''decryption ok'', ok := True\<rparr> \<and>
   rr_lines (read_response crypt_handle_status
      [''gpg: noise'' @ [CHR 0x0A], ''[GNUPG:] GOODSIG ABCD  Alice B '' @ [CHR 0x0A],
       ''[GNUPG:] DECRYPTION_OKAY'' @ [CHR 0x0A]] crypt_init) =
     [''gpg: noise'' @ [CHR 0x0A], ''[GNUPG:] GOODSIG ABCD  Alice B '' @ [CHR 0x0A],
       ''[GNUPG:] DECRYPTION_OKAY'' @ [CHR 0x0A]] \<and>
   rr_raised (read_response crypt_handle_status
      [''[GNUPG:] TYRANNOSAURUS 1'' @ [CHR 0x0A], ''[GNUPG:] DECRYPTION_OKAY'' @ [CHR 0x0A]]
      crypt_init) \<noteq> None \<and>
   rr_stderr (read_response crypt_handle_status
      [''[GNUPG:] TYRANNOSAURUS 1'' @ [CHR 0x0A], ''[GNUPG:] DECRYPTION_OKAY'' @ [CHR 0x0A]]
      crypt_init) = None \<and>
   rr_calls (read_response crypt_handle_status
      [''[GNUPG:] TYRANNOSAURUS 1'' @ [CHR 0x0A], ''[GNUPG:] DECRYPTION_OKAY'' @ [CHR 0x0A]]
      crypt_init) = [(''TYRANNOSAURUS'', ''1'')] \<and>
   rr_result (read_response crypt_handle_status
      [''[GNUPG:] TYRANNOSAURUS 1'' @ [CHR 0x0A], ''[GNUPG:] DECRYPTION_OKAY'' @ [CHR 0x0A]]
      crypt_init) = crypt_init"
proof -
  let ?l1 = "''gpg: noise'' @ [CHR 0x0A]"
  let ?l2 = "''[GNUPG:] GOODSIG ABCD  Alice B '' @ [CHR 0x0A]"
  let ?l3 = "''[GNUPG:] DECRYPTION_OKAY'' @ [CHR 0x0A]"
  let ?l4 = "''[GNUPG:] TYRANNOSAURUS 1'' @ [CHR 0x0A]"
  have n1: "\<not> startswith ?l1 status_prefix"
    by (simp add: startswith_def status_prefix_def)
  have s2: "status_line ?l2"
    by (simp add: status_line_def startswith_def status_prefix_def u_rstrip_def
          is_uspace_def is_space_def)
  have ev1: "map spec_event (filter status_line (takeWhile (\<lambda>l. l \<noteq> []) [?l1, ?l2, ?l3])) =
             [(''GOODSIG'', ''ABCD  Alice B''), (''DECRYPTION_OKAY'', [])]"
    by (simp add: spec_event_def status_line_def startswith_def status_prefix_def u_rstrip_def
          is_uspace_def is_space_def)
  have d1: "spec_dispatch crypt_handle_status
              [(''GOODSIG'', ''ABCD  Alice B''), (''DECRYPTION_OKAY'', [])] crypt_init [] =
            (crypt_init\<lparr>valid := True, key_id := Some ''ABCD'', username := Some ''Alice B'',
               status := Some ''decryption ok'', ok := True\<rparr>,
             [(''GOODSIG'', ''ABCD  Alice B''), (''DECRYPTION_OKAY'', [])], None)"
    by (simp add: crypt_handle_status_def verify_handle_status_def TRUST_LEVELS_def
          u_split1_def is_uspace_def is_space_def crypt_init_def Let_def)
  have ev2: "map spec_event (filter status_line (takeWhile (\<lambda>l. l \<noteq> []) [?l4, ?l3])) =
             [(''TYRANNOSAURUS'', ''1''), (''DECRYPTION_OKAY'', [])]"
    by (simp add: spec_event_def status_line_def startswith_def status_prefix_def u_rstrip_def
          is_uspace_def is_space_def)
  have d2: "spec_dispatch crypt_handle_status
              [(''TYRANNOSAURUS'', ''1''), (''DECRYPTION_OKAY'', [])] crypt_init [] =
            (crypt_init, [(''TYRANNOSAURUS'', ''1'')],
             Some (UnknownStatusMessage ''TYRANNOSAURUS''))"
    by (simp add: crypt_handle_status_def verify_handle_status_def TRUST_LEVELS_def)
  show ?thesis
    using n1 s2
      read_response_events [of ?l1 crypt_handle_status "[?l1, ?l2, ?l3]" crypt_init]
      read_response_events [of ?l2 crypt_handle_status "[?l4, ?l3]" crypt_init]
    unfolding ev1 ev2 d1 d2
    by simp
qed

text \<open>
  Claim C6 fails for a line that consists of the prefix and whitespace: it begins with
  the prefix, and no handler is called for it.
\<close>

theorem status_prefix_counterexample:
  "startswith (''[GNUPG:] '' @ [CHR 0x0A]) ''[GNUPG:] '' \<and>
   rr_calls (read_response crypt_handle_status [''[GNUPG:] '' @ [CHR 0x0A]] crypt_init) = [] \<and>
   rr_raised (read_response crypt_handle_status [''[GNUPG:] '' @ [CHR 0x0A]] crypt_init) = None"
  by (simp add: startswith_def read_response_def read_loop.simps u_rstrip_def is_uspace_def
        is_space_def status_prefix_def)

section \<open>Truth values of the results\<close>

subsection \<open>\<^verbatim>\<open>Crypt\<close>\<close>

lemma crypt_ok_step:
  "ok (fst (crypt_handle_status key v self)) =
     (ok self \<or> key = ''DECRYPTION_OKAY'' \<or> key = ''END_ENCRYPTION'')"
  by (simp add: crypt_handle_status_def verify_handle_status_def TRUST_LEVELS_def Let_def
           split: list.splits)

lemma read_loop_crypt_ok:
  "\<not> ok result \<Longrightarrow>
   \<forall>(k, x) \<in> set (rr_calls (read_loop crypt_handle_status stream result calls lines)).
      k \<noteq> ''DECRYPTION_OKAY'' \<and> k \<noteq> ''END_ENCRYPTION'' \<Longrightarrow>
   \<not> ok (rr_result (read_loop crypt_handle_status stream result calls lines))"
proof (induction stream arbitrary: result calls lines)
  case Nil
  then show ?case by simp
next
  case (Cons line stream)
  show ?case
  proof (cases "line = [] \<or> take 9 (u_rstrip line) \<noteq> status_prefix
                \<or> u_split1 (drop 9 (u_rstrip line)) = []")
    case True
    with Cons show ?thesis by (auto simp: read_loop.simps Let_def split: list.splits)
  next
    case False
    then obtain keyword rest where L: "u_split1 (drop 9 (u_rstrip line)) = keyword # rest"
      by (cases "u_split1 (drop 9 (u_rstrip line))") auto
    define val where "val = (case rest of [] \<Rightarrow> [] | x # xs \<Rightarrow> x)"
    obtain r1 e where h: "crypt_handle_status keyword val result = (r1, e)"
      by (cases "crypt_handle_status keyword val result") auto
    have unfold: "read_loop crypt_handle_status (line # stream) result calls lines =
       (case e of
          Some err \<Rightarrow> \<lparr>rr_result = r1, rr_calls = calls @ [(keyword, val)],
                        rr_lines = lines @ [line], rr_stderr = None, rr_raised = Some err\<rparr>
        | None \<Rightarrow> read_loop crypt_handle_status stream r1 (calls @ [(keyword, val)])
                    (lines @ [line]))"
      using False L h val_def by (intro read_loop_dispatch) auto
    have "(keyword, val) \<in> set (rr_calls (read_loop crypt_handle_status (line # stream) result calls lines))"
      unfolding unfold by (cases e) (simp_all add: read_loop_calls_mono)
    with Cons.prems(2) have k: "keyword \<noteq> ''DECRYPTION_OKAY'' \<and> keyword \<noteq> ''END_ENCRYPTION''"
      by blast
    have "ok r1 = ok result"
      using crypt_ok_step [of keyword val result] h k by simp
    with Cons.prems(1) have r1: "\<not> ok r1" by simp
    show ?thesis
    proof (cases e)
      case None
      with unfold have eq: "read_loop crypt_handle_status (line # stream) result calls lines =
         read_loop crypt_handle_status stream r1 (calls @ [(keyword, val)]) (lines @ [line])"
        by simp
      show ?thesis
        unfolding eq
        using Cons.IH [OF r1] Cons.prems(2) unfolding eq by blast
    next
      case (Some err)
      with unfold r1 show ?thesis by simp
    qed
  qed
qed

text \<open>
  Claim C9. A Crypt result is truthy exactly when its \<^verbatim>\<open>ok\<close> flag is set, whatever
  its \<^verbatim>\<open>valid\<close> flag is. The flag starts False; after a handler call it is set exactly
  when it was set before or the keyword is DECRYPTION_OKAY or END_ENCRYPTION. Hence a
  status stream that dispatches neither keyword to a fresh Crypt result leaves it
  falsy.
\<close>

theorem crypt_truthiness:
  "crypt_nonzero self = ok self \<and>
   crypt_nonzero (self\<lparr>valid := b\<rparr>) = crypt_nonzero self \<and>
   \<not> ok crypt_init \<and>
   ok (fst (crypt_handle_status key v self)) =
     (ok self \<or> key = ''DECRYPTION_OKAY'' \<or> key = ''END_ENCRYPTION'') \<and>
   ((\<forall>(k, x) \<in> set (rr_calls (read_response crypt_handle_status stream crypt_init)).
        k \<noteq> ''DECRYPTION_OKAY'' \<and> k \<noteq> ''END_ENCRYPTION'') \<longrightarrow>
    \<not> crypt_nonzero (rr_result (read_response crypt_handle_status stream crypt_init)))"
proof (intro conjI impI)
  show "crypt_nonzero self = ok self" by (simp add: crypt_nonzero_def)
  show "crypt_nonzero (self\<lparr>valid := b\<rparr>) = crypt_nonzero self" by (simp add: crypt_nonzero_def)
  show "\<not> ok crypt_init" by (simp add: crypt_init_def)
  show "ok (fst (crypt_handle_status key v self)) =
     (ok self \<or> key = ''DECRYPTION_OKAY'' \<or> key = ''END_ENCRYPTION'')"
    by (rule crypt_ok_step)
next
  assume "\<forall>(k, x) \<in> set (rr_calls (read_response crypt_handle_status stream crypt_init)).
        k \<noteq> ''DECRYPTION_OKAY'' \<and> k \<noteq> ''END_ENCRYPTION''"
  then have "\<not> ok (rr_result (read_response crypt_handle_status stream crypt_init))"
    unfolding read_response_def
    by (intro read_loop_crypt_ok) (simp_all add: crypt_init_def)
  then show "\<not> crypt_nonzero (rr_result (read_response crypt_handle_status stream crypt_init))"
    by (simp add: crypt_nonzero_def)
qed

theorem crypt_truthiness_witness:
  "map fst (rr_calls (read_response crypt_handle_status
        [''[GNUPG:] GOODSIG ABCD Alice'', ''[GNUPG:] VALIDSIG F 1 2 3 P''] crypt_init)) =
     [''GOODSIG'', ''VALIDSIG''] \<and>
   valid (rr_result (read_response crypt_handle_status
        [''[GNUPG:] GOODSIG ABCD Alice'', ''[GNUPG:] VALIDSIG F 1 2 3 P''] crypt_init)) \<and>
   \<not> crypt_nonzero (rr_result (read_response crypt_handle_status
        [''[GNUPG:] GOODSIG ABCD Alice'', ''[GNUPG:] VALIDSIG F 1 2 3 P''] crypt_init))"
proof -
  have r: "read_response crypt_handle_status
        [''[GNUPG:] GOODSIG ABCD Alice'', ''[GNUPG:] VALIDSIG F 1 2 3 P''] crypt_init =
     \<lparr>rr_result = crypt_init\<lparr>valid := True, status := Some ''signature valid'',
          key_id := Some ''ABCD'', username := Some ''Alice'', fingerprint := Some ''F'',
          creation_date := Some ''1'', sig_timestamp := Some ''2'',
          expire_timestamp := Some ''3'', pubkey_fingerprint := Some ''P''\<rparr>,
       rr_calls = [(''GOODSIG'', ''ABCD Alice''), (''VALIDSIG'', ''F 1 2 3 P'')],
       rr_lines = [''[GNUPG:] GOODSIG ABCD Alice'', ''[GNUPG:] VALIDSIG F 1 2 3 P''],
       rr_stderr = Some ''[GNUPG:] GOODSIG ABCD Alice[GNUPG:] VALIDSIG F 1 2 3 P'',
       rr_raised = None\<rparr>"
    by (simp add: read_response_def read_loop.simps u_rstrip_def is_uspace_def is_space_def
          status_prefix_def u_split1_def
          u_split_def crypt_handle_status_def verify_handle_status_def TRUST_LEVELS_def
          crypt_init_def Let_def)
  show ?thesis
    using crypt_truthiness [of _ _ _ _ "[''[GNUPG:] GOODSIG ABCD Alice'', ''[GNUPG:] VALIDSIG F 1 2 3 P'']"]
    unfolding r by (simp add: crypt_init_def)
qed

subsection \<open>\<^verbatim>\<open>ImportResult\<close>\<close>

lemma set_counts_ok:
  "\<forall>i \<in> set is. i < length toks \<and> u_int (toks ! i) \<noteq> None \<Longrightarrow>
     set_counts is toks self =
       (self\<lparr>attrs := fold (\<lambda>i m. m(counts ! i \<mapsto> the (u_int (toks ! i)))) is (attrs self)\<rparr>,
        None)"
  by (induction "is" toks self rule: set_counts.induct) auto

lemma counts_length: "length counts = 13"
  by (simp add: counts_def)

lemma upt_13: "[0 ..< 13] = [0 ..< 12] @ [12::nat]"
proof -
  have "[0 ..< Suc 12] = [0 ..< 12] @ [12::nat]" by (rule upt_Suc_append) simp
  then show ?thesis by simp
qed

text \<open>
  Claim C10. An ImportResult is truthy exactly when \<^verbatim>\<open>not_imported\<close> is None or 0 and
  \<^verbatim>\<open>fingerprints\<close> is not empty. A fresh one is falsy. An IMPORT_RES event whose value
  has at least thirteen tokens, the first thirteen of them integers and the thirteenth
  not zero, is handled without an exception, sets \<^verbatim>\<open>not_imported\<close> to that integer,
  keeps the fingerprints, and leaves the result falsy.
\<close>

theorem import_truthiness:
  "import_nonzero self =
     ((not_imported self = None \<or> not_imported self = Some 0) \<and> fingerprints self \<noteq> []) \<and>
   \<not> import_nonzero import_init \<and>
   (13 \<le> length (u_split v) \<and> (\<forall>t \<in> set (take 13 (u_split v)). u_int t \<noteq> None) \<and>
    u_int (u_split v ! 12) = Some n \<and> n \<noteq> 0 \<longrightarrow>
      snd (import_handle_status items ''IMPORT_RES'' v self) = None \<and>
      not_imported (fst (import_handle_status items ''IMPORT_RES'' v self)) = Some n \<and>
      fingerprints (fst (import_handle_status items ''IMPORT_RES'' v self)) = fingerprints self \<and>
      \<not> import_nonzero (fst (import_handle_status items ''IMPORT_RES'' v self)))"
proof (intro conjI impI)
  show "import_nonzero self =
     ((not_imported self = None \<or> not_imported self = Some 0) \<and> fingerprints self \<noteq> [])"
    by (auto simp: import_nonzero_def truthy_int_def split: option.splits)
  show "\<not> import_nonzero import_init"
    by (simp add: import_nonzero_def import_init_def)
next
  assume a: "13 \<le> length (u_split v) \<and> (\<forall>t \<in> set (take 13 (u_split v)). u_int t \<noteq> None) \<and>
    u_int (u_split v ! 12) = Some n \<and> n \<noteq> 0"
  have all: "\<forall>i \<in> set [0 ..< length counts].
               i < length (u_split v) \<and> u_int (u_split v ! i) \<noteq> None"
  proof
    fix i assume "i \<in> set [0 ..< length counts]"
    then have i: "i < 13" by (simp add: counts_length)
    with a have "u_split v ! i \<in> set (take 13 (u_split v))"
      by (auto simp: in_set_conv_nth intro!: exI [of _ i])
    with a i show "i < length (u_split v) \<and> u_int (u_split v ! i) \<noteq> None" by auto
  qed
  have res: "import_handle_status items ''IMPORT_RES'' v self =
       (self\<lparr>attrs := fold (\<lambda>i m. m(counts ! i \<mapsto> the (u_int (u_split v ! i))))
                          [0 ..< length counts] (attrs self)\<rparr>, None)"
    using set_counts_ok [OF all, of self] by (simp add: import_handle_status_def)
  have c12: "counts ! 12 = ''not_imported''" by (simp add: counts_def)
  show "snd (import_handle_status items ''IMPORT_RES'' v self) = None"
    by (simp add: res)
  show ni: "not_imported (fst (import_handle_status items ''IMPORT_RES'' v self)) = Some n"
    using a by (simp add: res not_imported_def counts_length upt_13 c12)
  show "fingerprints (fst (import_handle_status items ''IMPORT_RES'' v self)) = fingerprints self"
    by (simp add: res)
  show "\<not> import_nonzero (fst (import_handle_status items ''IMPORT_RES'' v self))"
    using a ni by (simp add: import_nonzero_def truthy_int_def)
qed

theorem import_truthiness_witness:
  "13 \<le> length (u_split ''1 0 1 1 0 1 1 1 0 0 0 0 2'') \<and>
   map u_int (take 13 (u_split ''1 0 1 1 0 1 1 1 0 0 0 0 2'')) =
     [Some 1, Some 0, Some 1, Some 1, Some 0, Some 1, Some 1, Some 1, Some 0, Some 0,
      Some 0, Some 0, Some 2] \<and>
   u_int (u_split ''1 0 1 1 0 1 1 1 0 0 0 0 2'' ! 12) = Some 2 \<and> (2::int) \<noteq> 0 \<and>
   fingerprints (import_init\<lparr>fingerprints := [''ABCD'']\<rparr>) \<noteq> [] \<and>
   snd (import_handle_status ok_reason ''IMPORT_RES'' ''1 0 1 1 0 1 1 1 0 0 0 0 2''
          (import_init\<lparr>fingerprints := [''ABCD'']\<rparr>)) = None \<and>
   \<not> import_nonzero (fst (import_handle_status ok_reason ''IMPORT_RES''
          ''1 0 1 1 0 1 1 1 0 0 0 0 2'' (import_init\<lparr>fingerprints := [''ABCD'']\<rparr>)))"
proof -
  have sp: "u_split ''1 0 1 1 0 1 1 1 0 0 0 0 2'' =
      [''1'', ''0'', ''1'', ''1'', ''0'', ''1'', ''1'', ''1'', ''0'', ''0'', ''0'', ''0'', ''2'']"
    by (simp add: u_split_def is_uspace_def is_space_def)
  have i0: "u_int ''0'' = Some 0" and i1: "u_int ''1'' = Some 1" and i2: "u_int ''2'' = Some 2"
    by (simp_all add: u_int_def u_strip_def u_rstrip_def is_uspace_def is_space_def
          parse_nat_def is_digit_def)
  have h: "13 \<le> length (u_split ''1 0 1 1 0 1 1 1 0 0 0 0 2'') \<and>
     (\<forall>t \<in> set (take 13 (u_split ''1 0 1 1 0 1 1 1 0 0 0 0 2'')). u_int t \<noteq> None) \<and>
     u_int (u_split ''1 0 1 1 0 1 1 1 0 0 0 0 2'' ! 12) = Some 2 \<and> (2::int) \<noteq> 0"
    unfolding sp by (simp add: i0 i1 i2)
  have m: "map u_int (take 13 (u_split ''1 0 1 1 0 1 1 1 0 0 0 0 2'')) =
     [Some 1, Some 0, Some 1, Some 1, Some 0, Some 1, Some 1, Some 1, Some 0, Some 0,
      Some 0, Some 0, Some 2]"
    unfolding sp by (simp add: i0 i1 i2)
  show ?thesis
    using h m import_truthiness [of "import_init\<lparr>fingerprints := [''ABCD'']\<rparr>"
            "''1 0 1 1 0 1 1 1 0 0 0 0 2''" 2 ok_reason]
    by (simp add: import_init_def)
qed

lemma py_int_codes:
  "py_int ''0'' = Some 0" "py_int ''1'' = Some 1" "py_int ''2'' = Some 2"
  "py_int ''4'' = Some 4" "py_int ''8'' = Some 8" "py_int ''16'' = Some 16"
  by (simp_all add: py_int_def py_strip_def py_rstrip_def is_space_def parse_nat_def is_digit_def)

lemma collect_reasons_filter:
  "u_int reason = Some r \<Longrightarrow> \<forall>(c, t) \<in> set tbl. py_int c \<noteq> None \<Longrightarrow>
     collect_reasons reason tbl acc =
       Inr (acc @ map snd (filter (\<lambda>(c, t). \<exists>n. py_int c = Some n \<and> or r n = r) tbl))"
proof (induction tbl arbitrary: acc)
  case Nil
  show ?case by simp
next
  case (Cons p tbl)
  obtain c t where p: "p = (c, t)" by (cases p)
  with Cons.prems obtain n where n: "py_int c = Some n" by auto
  have tl: "\<forall>(c, t) \<in> set tbl. py_int c \<noteq> None" using Cons.prems by simp
  show ?case
    using Cons.prems(1) p n Cons.IH [OF Cons.prems(1) tl] by simp
qed

lemma ok_reason_codes: "\<forall>(c, t) \<in> set ok_reason. py_int c \<noteq> None"
  by (simp add: ok_reason_def py_int_codes)

lemma ok_reason_texts: "inj_on snd (set ok_reason)"
  by (simp add: ok_reason_def)

lemma ok_reason_selected:
  "set (map snd (filter (\<lambda>(c, t). \<exists>n. py_int c = Some n \<and> or r n = r) ok_reason)) =
   set (map snd (filter (\<lambda>(code, text). or r code = r)
          [(0, ''Not actually changed''), (1, ''Entirely new key''),
           (2, ''New user IDs''), (4, ''New signatures''),
           (8, ''New subkeys''), (16, ''Contains private key'')]))"
  by (simp add: ok_reason_def py_int_codes)

text \<open>
  Claim C8, as the code has it. Let \<open>items\<close> be the entries of \<^verbatim>\<open>ok_reason\<close> in the
  iteration order of the dictionary. For an IMPORT_OK event whose value splits into a
  reason and a fingerprint, the reason being an integer \<open>r\<close>, the handler appends the
  fingerprint to \<^verbatim>\<open>fingerprints\<close> and appends an entry whose text is the texts of the
  entries with \<^verbatim>\<open>r | code == r\<close>, in the order of \<open>items\<close>, joined by newlines and
  followed by one more newline. The texts chosen are exactly those of the table
  entries whose code passes the test, each once.
\<close>

theorem import_ok_event:
  "items_of ok_reason items \<and> u_split v = [reason, fpr] \<and> u_int reason = Some r \<longrightarrow>
     import_handle_status items ''IMPORT_OK'' v self =
       (self\<lparr>results := results self @
           [\<lparr>e_fingerprint = Some fpr, e_ok = Some reason, e_problem = None,
             e_text =
               join [CHR 0x0A]
                 (map snd (filter (\<lambda>(code, text). \<exists>c. py_int code = Some c \<and> or r c = r)
                    items))
               @ [CHR 0x0A]\<rparr>],
          fingerprints := fingerprints self @ [fpr]\<rparr>, None) \<and>
     set (map snd (filter (\<lambda>(code, text). \<exists>c. py_int code = Some c \<and> or r c = r) items)) =
       set (map snd (filter (\<lambda>(code, text). or r code = r)
          [(0, ''Not actually changed''), (1, ''Entirely new key''),
           (2, ''New user IDs''), (4, ''New signatures''),
           (8, ''New subkeys''), (16, ''Contains private key'')])) \<and>
     distinct (map snd (filter (\<lambda>(code, text). \<exists>c. py_int code = Some c \<and> or r c = r) items))"
proof
  assume a: "items_of ok_reason items \<and> u_split v = [reason, fpr] \<and> u_int reason = Some r"
  then have d: "distinct items" and s: "set items = set ok_reason"
    by (simp_all add: items_of_def)
  have tbl: "\<forall>(c, t) \<in> set items. py_int c \<noteq> None"
    unfolding s by (rule ok_reason_codes)
  from a have r: "u_int reason = Some r" by simp
  have cr: "collect_reasons reason items [] =
     Inr (map snd (filter (\<lambda>(c, t). \<exists>n. py_int c = Some n \<and> or r n = r) items))"
    using collect_reasons_filter [OF r tbl, of "[]"] by simp
  have A: "import_handle_status items ''IMPORT_OK'' v self =
       (self\<lparr>results := results self @
           [\<lparr>e_fingerprint = Some fpr, e_ok = Some reason, e_problem = None,
             e_text =
               join [CHR 0x0A]
                 (map snd (filter (\<lambda>(code, text). \<exists>c. py_int code = Some c \<and> or r c = r)
                    items))
               @ [CHR 0x0A]\<rparr>],
          fingerprints := fingerprints self @ [fpr]\<rparr>, None)"
    using a by (simp add: import_handle_status_def Let_def cr)
  have "set (map snd (filter (\<lambda>(c, t). \<exists>n. py_int c = Some n \<and> or r n = r) items)) =
        snd ` {x \<in> set items. (\<lambda>(c, t). \<exists>n. py_int c = Some n \<and> or r n = r) x}"
    by simp
  also have "\<dots> = snd ` {x \<in> set ok_reason. (\<lambda>(c, t). \<exists>n. py_int c = Some n \<and> or r n = r) x}"
    by (simp only: s)
  also have "\<dots> = set (map snd (filter (\<lambda>(c, t). \<exists>n. py_int c = Some n \<and> or r n = r) ok_reason))"
    by simp
  finally have B: "set (map snd (filter (\<lambda>(code, text). \<exists>c. py_int code = Some c \<and> or r c = r) items)) =
       set (map snd (filter (\<lambda>(code, text). or r code = r)
          [(0, ''Not actually changed''), (1, ''Entirely new key''),
           (2, ''New user IDs''), (4, ''New signatures''),
           (8, ''New subkeys''), (16, ''Contains private key'')]))"
    by (simp only: ok_reason_selected)
  have "inj_on snd (set items)" unfolding s by (rule ok_reason_texts)
  with d have "distinct (map snd items)" by (simp add: distinct_map)
  then have C: "distinct (map snd (filter (\<lambda>(code, text). \<exists>c. py_int code = Some c \<and> or r c = r) items))"
    by (rule distinct_map_filter)
  from A B C show "import_handle_status items ''IMPORT_OK'' v self =
       (self\<lparr>results := results self @
           [\<lparr>e_fingerprint = Some fpr, e_ok = Some reason, e_problem = None,
             e_text =
               join [CHR 0x0A]
                 (map snd (filter (\<lambda>(code, text). \<exists>c. py_int code = Some c \<and> or r c = r)
                    items))
               @ [CHR 0x0A]\<rparr>],
          fingerprints := fingerprints self @ [fpr]\<rparr>, None) \<and>
     set (map snd (filter (\<lambda>(code, text). \<exists>c. py_int code = Some c \<and> or r c = r) items)) =
       set (map snd (filter (\<lambda>(code, text). or r code = r)
          [(0, ''Not actually changed''), (1, ''Entirely new key''),
           (2, ''New user IDs''), (4, ''New signatures''),
           (8, ''New subkeys''), (16, ''Contains private key'')])) \<and>
     distinct (map snd (filter (\<lambda>(code, text). \<exists>c. py_int code = Some c \<and> or r c = r) items))"
    by (intro conjI)
qed

theorem import_ok_event_witness:
  "items_of ok_reason ok_reason_hash_order \<and>
   u_split ''3 ABCD'' = [''3'', ''ABCD''] \<and> u_int ''3'' = Some 3 \<and>
   import_handle_status ok_reason_hash_order ''IMPORT_OK'' ''3 ABCD'' import_init =
     (\<lparr>results =
         [\<lparr>e_fingerprint = Some ''ABCD'', e_ok = Some ''3'', e_problem = None,
           e_text = ''Entirely new key'' @ [CHR 0x0A] @ ''Not actually changed'' @ [CHR 0x0A]
                    @ ''New user IDs'' @ [CHR 0x0A]\<rparr>],
       fingerprints = [''ABCD''], attrs = Map.empty\<rparr>, None)"
proof -
  have it: "items_of ok_reason ok_reason_hash_order"
    by (auto simp: items_of_def ok_reason_def ok_reason_hash_order_def)
  have sp: "u_split ''3 ABCD'' = [''3'', ''ABCD'']"
    by (simp add: u_split_def is_uspace_def is_space_def)
  have i3: "u_int ''3'' = Some 3"
    by (simp add: u_int_def u_strip_def u_rstrip_def is_uspace_def is_space_def
          parse_nat_def is_digit_def)
  have sel: "map snd (filter (\<lambda>(code, text). \<exists>c. py_int code = Some c \<and> or (3::int) c = 3)
               ok_reason_hash_order) =
             [''Entirely new key'', ''Not actually changed'', ''New user IDs'']"
    by (simp add: ok_reason_hash_order_def py_int_codes)
  show ?thesis
    using it sp i3
      import_ok_event [of ok_reason_hash_order "''3 ABCD''" "''3''" "''ABCD''" 3 import_init]
    unfolding sel
    by (simp add: import_init_def)
qed

text \<open>
  Claim C8 fails on the text itself: for the value \<^verbatim>\<open>1 ABCD\<close> the text is not the
  newline-joined texts but those followed by a newline, in the iteration order of
  CPython 2.7 and in the source order alike.
\<close>

theorem import_ok_text_counterexample:
  "map e_text (results (fst (import_handle_status ok_reason_hash_order
       ''IMPORT_OK'' ''1 ABCD'' import_init))) \<noteq>
     [join [CHR 0x0A] [''Entirely new key'', ''Not actually changed'']] \<and>
   map e_text (results (fst (import_handle_status ok_reason_hash_order
       ''IMPORT_OK'' ''1 ABCD'' import_init))) =
     [join [CHR 0x0A] [''Entirely new key'', ''Not actually changed''] @ [CHR 0x0A]] \<and>
   map e_text (results (fst (import_handle_status ok_reason
       ''IMPORT_OK'' ''1 ABCD'' import_init))) \<noteq>
     [join [CHR 0x0A] [''Not actually changed'', ''Entirely new key'']]"
proof -
  have sp: "u_split ''1 ABCD'' = [''1'', ''ABCD'']"
    by (simp add: u_split_def is_uspace_def is_space_def)
  have i1: "u_int ''1'' = Some 1"
    by (simp add: u_int_def u_strip_def u_rstrip_def is_uspace_def is_space_def
          parse_nat_def is_digit_def)
  show ?thesis
    by (simp add: import_handle_status_def sp i1 ok_reason_def ok_reason_hash_order_def
          py_int_codes import_init_def)
qed

section \<open>Properties of the stream copier\<close>

declare copy_loop.simps [simp del]











lemma copy_data_precondition:
  "\<not> (instream_ok \<and> outstream_ok) \<Longrightarrow>
      \<not> cs_closed (copy_data instream_ok outstream_ok write encode close_outcome src) \<and>
      cs_written (copy_data instream_ok outstream_ok write encode close_outcome src) = [] \<and>
      cs_raised (copy_data instream_ok outstream_ok write encode close_outcome src) = None"
  by (auto simp: copy_data_def copy_init_def)














end
